theory Spec2Isabelle
  imports
    Complex_Main
    "HOL-Library.Multiset"
    "HOL-Library.Extended_Nat"
    "HOL-Library.Char_ord"
    "HOL-Library.List_Lexorder"
    "HOL-Library.Product_Lexorder"
begin

section \<open>The aluminium cutting optimizer (\<^verbatim>\<open>cutting_optimizer.py\<close>)\<close>

text \<open>
  The module has one function, \<^verbatim>\<open>optimize_cutting\<close>. Its body is modelled here block by
  block, in the order of the source, each block under the name of the local variable it
  computes. Numbers (lengths, stock lengths, the cutting gap, quotients) are exact
  rationals, so neither the rounding of the source's 64-bit floats nor the wrap-around of
  its 64-bit integers (a column of whole numbers is \<^verbatim>\<open>int64\<close>, and sums of its cells wrap at
  \<open>2^63\<close>) is part of the model; statements that depend on the sign of a computed efficiency
  carry bounds under which no sum of the source wraps. The cells of a data frame row are the
  fields of a record; a data frame is the list of its rows, and a profile code is a string.
\<close>

subsection \<open>Rows of the tables\<close>

text \<open>A row of the input table: the columns \<^verbatim>\<open>Profile Code\<close>, \<^verbatim>\<open>Length\<close>, \<^verbatim>\<open>Quantity\<close>.\<close>

record input_row =
  in_Profile_Code :: string
  in_Length :: rat
  in_Quantity :: rat

text \<open>An entry of \<^verbatim>\<open>expanded_data\<close>.\<close>

record expanded_row =
  ex_Profile_Code :: string
  ex_Length :: rat
  ex_Item_ID :: string

text \<open>An entry of \<^verbatim>\<open>all_results\<close>.\<close>

record result_row =
  rs_Profile_Code :: string
  rs_Item_ID :: string
  rs_Length :: rat
  rs_Bar_Number :: nat

text \<open>
  An entry of \<^verbatim>\<open>pattern_data\<close>. The column \<^verbatim>\<open>Cutting Pattern\<close> is the list of the
  bar's pieces (the source joins their decimal renderings with \<^verbatim>\<open>+\<close>). A quotient of
  numpy scalars does not raise when the divisor is zero: it is infinite or not a number,
  which is \<open>None\<close> here.
\<close>

record pattern_row =
  pt_Profile_Code :: string
  pt_Bar_Number :: nat
  pt_Stock_Length :: rat
  pt_Used_Length :: rat
  pt_Remaining_Length :: rat
  pt_Efficiency :: "rat option"
  pt_Cutting_Pattern :: "rat list"
  pt_Pieces :: nat

text \<open>An entry of \<^verbatim>\<open>all_summaries\<close>.\<close>

record summary_row =
  sm_Profile_Code :: string
  sm_Total_Pieces :: nat
  sm_Total_Bars_Used :: nat
  sm_Total_Length_Needed :: rat
  sm_Total_Stock_Length :: rat
  sm_Waste :: rat
  sm_Overall_Efficiency :: "rat option"
  sm_Average_Bar_Efficiency :: "rat option"

text \<open>
  The parameter \<^verbatim>\<open>optimization_method\<close> is a string that the source compares with one
  literal only: every other string takes the \<^verbatim>\<open>else\<close> branch, documented as the
  bar-count objective.
\<close>

datatype optimization_method = MaxEfficiency | MinBarCount

text \<open>
  The only exception the body can raise on a table of rational cells: with no expanded
  row at all, \<^verbatim>\<open>pd.DataFrame([])\<close> has no column and
  \<^verbatim>\<open>expanded_df['Profile Code']\<close> is a \<^verbatim>\<open>KeyError\<close>.
\<close>

datatype error = KeyError

subsection \<open>Python and numpy primitives\<close>

definition py_int :: "rat \<Rightarrow> int" where
  \<comment> \<open>\<^verbatim>\<open>int(x)\<close> truncates towards zero.\<close>
  "py_int x = (if 0 \<le> x then \<lfloor>x\<rfloor> else \<lceil>x\<rceil>)"

definition range_py :: "int \<Rightarrow> nat list" where
  \<comment> \<open>\<^verbatim>\<open>range(n)\<close> is empty for \<open>n \<le> 0\<close>.\<close>
  "range_py n = [0..<nat n]"

definition digit_char :: "nat \<Rightarrow> char" where
  "digit_char d = ''0123456789'' ! d"

fun str :: "nat \<Rightarrow> string" where
  "str n = (if n < 10 then [digit_char n] else str (n div 10) @ [digit_char (n mod 10)])"

declare str.simps [simp del]

definition np_div :: "rat \<Rightarrow> rat \<Rightarrow> rat option" where
  "np_div a b = (if b = 0 then None else Some (a / b))"

fun np_sum :: "rat option list \<Rightarrow> rat option" where
  "np_sum [] = Some 0"
| "np_sum (None # xs) = None"
| "np_sum (Some x # xs) = (case np_sum xs of None \<Rightarrow> None | Some s \<Rightarrow> Some (x + s))"

definition np_mean :: "rat option list \<Rightarrow> rat option" where
  \<comment> \<open>The mean of no value is not a number.\<close>
  "np_mean xs = (case np_sum xs of None \<Rightarrow> None | Some s \<Rightarrow> np_div s (of_nat (length xs)))"

definition rint :: "rat \<Rightarrow> int" where
  \<comment> \<open>Rounding to the nearest integer, a half to the even one.\<close>
  "rint x = (let f = \<lfloor>x\<rfloor>; d = x - of_int f
             in if d < 1 / 2 then f else if 1 / 2 < d then f + 1
                else if even f then f else f + 1)"

definition round4 :: "rat option \<Rightarrow> rat option" where
  \<comment> \<open>\<^verbatim>\<open>.round(4)\<close> on a column.\<close>
  "round4 x = map_option (\<lambda>v. of_int (rint (v * 10000)) / 10000) x"

fun unique_acc :: "'a list \<Rightarrow> 'a list \<Rightarrow> 'a list" where
  "unique_acc seen [] = []"
| "unique_acc seen (x # xs) =
     (if x \<in> set seen then unique_acc seen xs else x # unique_acc (x # seen) xs)"

definition unique :: "'a list \<Rightarrow> 'a list" where
  \<comment> \<open>\<^verbatim>\<open>Series.unique()\<close>: the distinct values in order of first appearance.\<close>
  "unique xs = unique_acc [] xs"

subsection \<open>Expansion by quantity\<close>

definition expand_row :: "input_row \<Rightarrow> expanded_row list" where
  "expand_row row =
     map (\<lambda>i. \<lparr>ex_Profile_Code = in_Profile_Code row,
               ex_Length = in_Length row,
               ex_Item_ID = in_Profile_Code row @ ''_'' @ str (i + 1)\<rparr>)
         (range_py (py_int (in_Quantity row)))"

definition expanded_data :: "input_row list \<Rightarrow> expanded_row list" where
  "expanded_data input_data = concat (map expand_row input_data)"

subsection \<open>First-fit decreasing for one stock length\<close>

text \<open>
  The state of the heuristic is the pair of the parallel lists \<^verbatim>\<open>patterns\<close> and
  \<^verbatim>\<open>remaining_lengths\<close>. \<open>try_add\<close> is the inner \<^verbatim>\<open>for i, remaining in
  enumerate(remaining_lengths)\<close> from index \<open>i\<close> on: it returns the state after the
  \<^verbatim>\<open>break\<close>, or \<open>None\<close> when the loop ends with \<^verbatim>\<open>added\<close> still false. The two lists
  grow together (lemma \<open>first_fit_aligned\<close> below), so the index \<open>i\<close> of a remaining length
  is always an index of \<^verbatim>\<open>patterns\<close> too and \<^verbatim>\<open>patterns[i]\<close> never raises.
\<close>

type_synonym bars = "rat list list \<times> rat list"

function try_add :: "rat \<Rightarrow> rat \<Rightarrow> nat \<Rightarrow> bars \<Rightarrow> bars option" where
  "try_add len cutting_gap i (patterns, remaining_lengths) =
     (if i < length remaining_lengths then
        (if len \<le> remaining_lengths ! i then
           Some (patterns[i := patterns ! i @ [len]],
                 remaining_lengths[i := remaining_lengths ! i - len - cutting_gap])
         else try_add len cutting_gap (i + 1) (patterns, remaining_lengths))
      else None)"
  by pat_completeness auto
termination
  by (relation "measure (\<lambda>(len, cutting_gap, i, patterns, remaining_lengths).
        length remaining_lengths - i)") auto

declare try_add.simps [simp del]

definition place :: "rat \<Rightarrow> rat \<Rightarrow> bars \<Rightarrow> rat \<Rightarrow> bars" where
  \<comment> \<open>One turn of \<^verbatim>\<open>for length in lengths\<close>.\<close>
  "place current_stock_length cutting_gap st len =
     (case try_add len cutting_gap 0 st of
        Some st' \<Rightarrow> st'
      | None \<Rightarrow> (fst st @ [[len]], snd st @ [current_stock_length - len - cutting_gap]))"

definition first_fit :: "rat \<Rightarrow> rat \<Rightarrow> rat list \<Rightarrow> bars" where
  "first_fit current_stock_length cutting_gap lengths =
     foldl (place current_stock_length cutting_gap) ([], []) lengths"

definition sort_descending :: "rat list \<Rightarrow> rat list" where
  \<comment> \<open>\<^verbatim>\<open>np.sort(lengths)[::-1]\<close>\<close>
  "sort_descending lengths = rev (sort lengths)"

subsection \<open>Trying the stock lengths\<close>

text \<open>
  The variables \<^verbatim>\<open>best_patterns\<close> ... \<^verbatim>\<open>best_bar_count\<close>. The bar count starts at
  \<^verbatim>\<open>float('inf')\<close>.
\<close>

record best =
  best_patterns :: "rat list list"
  best_remaining_lengths :: "rat list"
  best_stock_length :: rat
  best_efficiency :: rat
  best_bar_count :: enat

definition initial_best :: "rat \<Rightarrow> best" where
  "initial_best stock_length =
     \<lparr>best_patterns = [], best_remaining_lengths = [], best_stock_length = stock_length,
      best_efficiency = 0, best_bar_count = \<infinity>\<rparr>"

definition current_efficiency :: "rat \<Rightarrow> rat list list \<Rightarrow> rat" where
  \<comment> \<open>The sums are exact; those of the source are sums of 64-bit cells.\<close>
  "current_efficiency current_stock_length patterns =
     (let total_used_length = sum_list (map sum_list patterns);
          total_stock_length = current_stock_length * of_nat (length patterns)
      in if total_stock_length > 0 then total_used_length / total_stock_length else 0)"

definition candidate :: "rat \<Rightarrow> rat list \<Rightarrow> rat \<Rightarrow> best" where
  \<comment> \<open>What the four assignments of either branch store for one stock length.\<close>
  "candidate cutting_gap lengths current_stock_length =
     (let (patterns, remaining_lengths) = first_fit current_stock_length cutting_gap lengths
      in \<lparr>best_patterns = patterns, best_remaining_lengths = remaining_lengths,
          best_stock_length = current_stock_length,
          best_efficiency = current_efficiency current_stock_length patterns,
          best_bar_count = enat (length patterns)\<rparr>)"

definition try_stock_length ::
  "optimization_method \<Rightarrow> rat \<Rightarrow> rat list \<Rightarrow> best \<Rightarrow> rat \<Rightarrow> best" where
  \<comment> \<open>One turn of \<^verbatim>\<open>for current_stock_length in stock_length_options\<close>.\<close>
  "try_stock_length optimization_method cutting_gap lengths b current_stock_length =
     (let c = candidate cutting_gap lengths current_stock_length
      in case optimization_method of
           MaxEfficiency \<Rightarrow>
             if best_efficiency c > best_efficiency b then c else b
         | MinBarCount \<Rightarrow>
             if best_bar_count c < best_bar_count b
                \<or> (best_bar_count c = best_bar_count b \<and> best_efficiency c > best_efficiency b)
             then c else b)"

definition best_solution ::
  "optimization_method \<Rightarrow> rat \<Rightarrow> rat \<Rightarrow> rat list \<Rightarrow> rat list \<Rightarrow> best" where
  "best_solution optimization_method stock_length cutting_gap stock_length_options lengths =
     foldl (try_stock_length optimization_method cutting_gap lengths) (initial_best stock_length)
       stock_length_options"

subsection \<open>Pattern rows and piece assignment\<close>

definition assign_piece ::
  "string \<Rightarrow> expanded_row list \<Rightarrow> nat \<Rightarrow> result_row list \<Rightarrow> rat \<Rightarrow> result_row list" where
  \<comment> \<open>One turn of \<^verbatim>\<open>for length in pattern\<close>: the first unassigned item of this length.\<close>
  "assign_piece profile_code pdata bar_number all_results len =
     (let unassigned_items =
            filter (\<lambda>it. ex_Length it = len
                          \<and> ex_Item_ID it \<notin> set (map rs_Item_ID all_results)) pdata
      in case unassigned_items of
           [] \<Rightarrow> all_results
         | it # _ \<Rightarrow>
             all_results @ [\<lparr>rs_Profile_Code = profile_code, rs_Item_ID = ex_Item_ID it,
                             rs_Length = len, rs_Bar_Number = bar_number\<rparr>])"

text \<open>
  The loop over \<^verbatim>\<open>zip(patterns, remaining_lengths)\<close> carries \<^verbatim>\<open>pattern_data\<close>,
  \<^verbatim>\<open>all_results\<close> and \<^verbatim>\<open>bar_number\<close>.
\<close>

definition bar_row :: "string \<Rightarrow> rat \<Rightarrow> nat \<Rightarrow> rat list \<times> rat \<Rightarrow> pattern_row" where
  \<comment> \<open>The entry appended to \<^verbatim>\<open>pattern_data\<close> for one bar.\<close>
  "bar_row profile_code current_stock_length bar_number pr =
     (case pr of (pattern, remaining) \<Rightarrow>
        \<lparr>pt_Profile_Code = profile_code, pt_Bar_Number = bar_number,
         pt_Stock_Length = current_stock_length,
         pt_Used_Length = current_stock_length - remaining,
         pt_Remaining_Length = remaining,
         pt_Efficiency = np_div (sum_list pattern) current_stock_length,
         pt_Cutting_Pattern = pattern, pt_Pieces = length pattern\<rparr>)"

type_synonym rows_state = "pattern_row list \<times> result_row list \<times> nat"

definition pattern_step ::
  "string \<Rightarrow> expanded_row list \<Rightarrow> rat \<Rightarrow> rows_state \<Rightarrow> rat list \<times> rat \<Rightarrow> rows_state" where
  "pattern_step profile_code pdata current_stock_length st pr =
     (case st of (pattern_data, all_results, bar_number) \<Rightarrow>
        (pattern_data @ [bar_row profile_code current_stock_length bar_number pr],
         foldl (assign_piece profile_code pdata bar_number) all_results (fst pr),
         bar_number + 1))"

definition pattern_rows ::
  "string \<Rightarrow> expanded_row list \<Rightarrow> best \<Rightarrow> result_row list
     \<Rightarrow> pattern_row list \<times> result_row list" where
  "pattern_rows profile_code pdata b all_results =
     (case foldl (pattern_step profile_code pdata (best_stock_length b))
             ([], all_results, 1)
             (zip (best_patterns b) (best_remaining_lengths b)) of
        (pattern_data, all_results', bar_number) \<Rightarrow> (pattern_data, all_results'))"

subsection \<open>The summary of a profile\<close>

definition summary ::
  "string \<Rightarrow> rat \<Rightarrow> rat list \<Rightarrow> rat list list \<Rightarrow> pattern_row list \<Rightarrow> summary_row" where
  "summary profile_code cutting_gap lengths patterns pattern_data =
     (let total_bars = length patterns;
          total_length_needed = sum_list lengths;
          total_length_used = sum_list (map pt_Stock_Length pattern_data);
          avg_efficiency = np_mean (map pt_Efficiency pattern_data)
      in \<lparr>sm_Profile_Code = profile_code,
          sm_Total_Pieces = length lengths,
          sm_Total_Bars_Used = total_bars,
          sm_Total_Length_Needed = total_length_needed,
          sm_Total_Stock_Length = total_length_used,
          sm_Waste = total_length_used - total_length_needed
                     - of_int (int (length lengths) - int total_bars) * cutting_gap,
          sm_Overall_Efficiency = np_div total_length_needed total_length_used,
          sm_Average_Bar_Efficiency = avg_efficiency\<rparr>)"

subsection \<open>The loop over the profile codes and the three tables\<close>

text \<open>
  The three lists become data frames that are sorted at the end: \<^verbatim>\<open>sort_values\<close> on the
  columns \<^verbatim>\<open>Profile Code\<close> and \<^verbatim>\<open>Bar Number\<close> (on \<^verbatim>\<open>Profile Code\<close> alone for the
  summaries, whose codes are distinct) keeps the order of rows with equal keys, as
  \<open>sort_key\<close> does; strings are compared character by character. The efficiency columns
  are then rounded to four decimals.
\<close>

type_synonym tables_state = "pattern_row list \<times> summary_row list \<times> result_row list"

definition profile_data :: "expanded_row list \<Rightarrow> string \<Rightarrow> expanded_row list" where
  \<comment> \<open>\<^verbatim>\<open>expanded_df[expanded_df['Profile Code'] == profile_code]\<close>\<close>
  "profile_data expanded_df profile_code =
     filter (\<lambda>it. ex_Profile_Code it = profile_code) expanded_df"

definition profile_lengths :: "expanded_row list \<Rightarrow> rat list" where
  \<comment> \<open>The variable \<^verbatim>\<open>lengths\<close>: the column \<^verbatim>\<open>Length\<close> of the profile, sorted descending.\<close>
  "profile_lengths pdata = sort_descending (map ex_Length pdata)"

definition process_profile ::
  "rat \<Rightarrow> rat \<Rightarrow> optimization_method \<Rightarrow> rat list \<Rightarrow> expanded_row list
     \<Rightarrow> tables_state \<Rightarrow> string \<Rightarrow> tables_state" where
  \<comment> \<open>One turn of \<^verbatim>\<open>for profile_code in profile_codes\<close>.\<close>
  "process_profile stock_length cutting_gap optimization_method stock_length_options
       expanded_df st profile_code =
     (case st of (all_patterns, all_summaries, all_results) \<Rightarrow>
      let pdata = profile_data expanded_df profile_code;
          lengths = profile_lengths pdata;
          b = best_solution optimization_method stock_length cutting_gap
                stock_length_options lengths
      in case pattern_rows profile_code pdata b all_results of
           (pattern_data, all_results') \<Rightarrow>
             (all_patterns @ pattern_data,
              all_summaries @
                [summary profile_code cutting_gap lengths (best_patterns b) pattern_data],
              all_results'))"

definition candidates :: "rat \<Rightarrow> rat list option \<Rightarrow> rat list" where
  \<comment> \<open>\<^verbatim>\<open>stock_length_options\<close> after the default of the first two lines.\<close>
  "candidates stock_length stock_length_options =
     (case stock_length_options of None \<Rightarrow> [stock_length] | Some os \<Rightarrow> os)"

definition optimize_cutting ::
  "input_row list \<Rightarrow> rat \<Rightarrow> rat \<Rightarrow> optimization_method \<Rightarrow> rat list option \<Rightarrow> bool
     \<Rightarrow> error + (result_row list \<times> pattern_row list \<times> summary_row list)" where
  "optimize_cutting input_data stock_length cutting_gap optimization_method stock_length_options
       optimize_stock_length =
     (let options = candidates stock_length stock_length_options;
          expanded_df = expanded_data input_data
      in if expanded_df = [] then Inl KeyError
         else
           let profile_codes = unique (map ex_Profile_Code expanded_df)
           in case foldl (process_profile stock_length cutting_gap optimization_method
                            options expanded_df)
                     ([], [], []) profile_codes of
                (all_patterns, all_summaries, all_results) \<Rightarrow>
                  Inr (sort_key (\<lambda>r. (rs_Profile_Code r, rs_Bar_Number r)) all_results,
                       map (\<lambda>r. r\<lparr>pt_Efficiency := round4 (pt_Efficiency r)\<rparr>)
                         (sort_key (\<lambda>r. (pt_Profile_Code r, pt_Bar_Number r)) all_patterns),
                       map (\<lambda>r. r\<lparr>sm_Overall_Efficiency := round4 (sm_Overall_Efficiency r),
                                  sm_Average_Bar_Efficiency :=
                                    round4 (sm_Average_Bar_Efficiency r)\<rparr>)
                         (sort_key sm_Profile_Code all_summaries)))"

subsection \<open>The turn of one profile\<close>

text \<open>
  The value of the variables \<^verbatim>\<open>best_patterns\<close> ... \<^verbatim>\<open>best_bar_count\<close> when the loop over
  the stock lengths ends in the turn of \<open>profile_code\<close>, and the \<^verbatim>\<open>pattern_data\<close> of that
  turn. They are compositions of the blocks above, named for the statements below.
\<close>

definition winner ::
  "input_row list \<Rightarrow> rat \<Rightarrow> rat \<Rightarrow> optimization_method \<Rightarrow> rat list option \<Rightarrow> string
     \<Rightarrow> best" where
  "winner input_data stock_length cutting_gap optimization_method stock_length_options
       profile_code =
     best_solution optimization_method stock_length cutting_gap
       (candidates stock_length stock_length_options)
       (profile_lengths (profile_data (expanded_data input_data) profile_code))"

definition winner_rows ::
  "input_row list \<Rightarrow> rat \<Rightarrow> rat \<Rightarrow> optimization_method \<Rightarrow> rat list option \<Rightarrow> string
     \<Rightarrow> pattern_row list" where
  "winner_rows input_data stock_length cutting_gap optimization_method stock_length_options
       profile_code =
     fst (pattern_rows profile_code (profile_data (expanded_data input_data) profile_code)
            (winner input_data stock_length cutting_gap optimization_method stock_length_options
               profile_code) [])"

section \<open>The pattern generator in the words of the specification\<close>

text \<open>
  Section 4.2 of the specification: scan the open bars in the order they were created and
  select the first one whose remaining capacity is at least the length; if found, append
  the length to that bar's pieces and reduce its remaining capacity by the length plus the
  cutting gap; if no bar fits, open a new bar that holds this length, with remaining
  capacity the stock length minus the length minus the cutting gap.
\<close>

definition spec_place :: "rat \<Rightarrow> rat \<Rightarrow> bars \<Rightarrow> rat \<Rightarrow> bars" where
  "spec_place stockLength cuttingGap st len =
     (case st of (pieces, remaining) \<Rightarrow>
      case find (\<lambda>i. len \<le> remaining ! i) [0..<length remaining] of
        Some i \<Rightarrow> (pieces[i := pieces ! i @ [len]],
                   remaining[i := remaining ! i - (len + cuttingGap)])
      | None \<Rightarrow> (pieces @ [[len]], remaining @ [stockLength - len - cuttingGap]))"

definition spec_pattern_generator :: "rat \<Rightarrow> rat \<Rightarrow> rat list \<Rightarrow> bars" where
  "spec_pattern_generator stockLength cuttingGap lengths =
     foldl (spec_place stockLength cuttingGap) ([], []) lengths"

section \<open>Properties of the pattern generator\<close>

lemma try_add_find:
  "try_add len gap i (ps, rs) =
     map_option (\<lambda>k. (ps[k := ps ! k @ [len]], rs[k := rs ! k - len - gap]))
       (find (\<lambda>k. len \<le> rs ! k) [i..<length rs])"
proof (induction len gap i "(ps, rs)" rule: try_add.induct)
  case (1 len gap i)
  show ?case
  proof (cases "i < length rs")
    case True
    then show ?thesis
      using 1 by (subst try_add.simps) (simp add: upt_rec [of i])
  next
    case False
    then show ?thesis by (subst try_add.simps) simp
  qed
qed

lemma place_spec: "place stock gap st len = spec_place stock gap st len"
  by (cases st)
    (simp add: place_def spec_place_def try_add_find diff_diff_eq split: option.splits)

lemma first_fit_spec: "first_fit stock gap ls = spec_pattern_generator stock gap ls"
proof -
  have "place stock gap = spec_place stock gap"
    by (intro ext) (rule place_spec)
  then show ?thesis by (simp add: first_fit_def spec_pattern_generator_def)
qed

lemma sort_descending_sorted: "sorted_wrt (\<ge>) (sort_descending ls)"
  by (simp add: sort_descending_def sorted_wrt_rev)

lemma mset_sort_descending: "mset (sort_descending ls) = mset ls"
  by (simp add: sort_descending_def)

lemma place_cases:
  obtains (fit) k where "k < length (snd st)" "len \<le> snd st ! k" "\<forall>j<k. \<not> len \<le> snd st ! j"
      "place stock gap st len =
         ((fst st)[k := fst st ! k @ [len]], (snd st)[k := snd st ! k - len - gap])"
  | (new) "\<forall>j<length (snd st). \<not> len \<le> snd st ! j"
      "place stock gap st len = (fst st @ [[len]], snd st @ [stock - len - gap])"
proof (cases "find (\<lambda>k. len \<le> snd st ! k) [0..<length (snd st)]")
  case None
  then have "\<forall>j<length (snd st). \<not> len \<le> snd st ! j"
    by (auto simp: find_None_iff)
  moreover from None have
    "place stock gap st len = (fst st @ [[len]], snd st @ [stock - len - gap])"
    by (cases st) (simp add: place_def try_add_find)
  ultimately show ?thesis by (rule new)
next
  case (Some k)
  then have "k < length (snd st)" "len \<le> snd st ! k" "\<forall>j<k. \<not> len \<le> snd st ! j"
    by (auto simp: find_Some_iff)
  moreover from Some have
    "place stock gap st len =
       ((fst st)[k := fst st ! k @ [len]], (snd st)[k := snd st ! k - len - gap])"
    by (cases st) (simp add: place_def try_add_find)
  ultimately show ?thesis by (rule fit)
qed

lemma foldl_place_invariant:
  assumes "P st" and "\<And>st len. P st \<Longrightarrow> len \<in> set ls \<Longrightarrow> P (place stock gap st len)"
  shows "P (foldl (place stock gap) st ls)"
  using assms by (induction ls arbitrary: st) auto

lemma place_aligned:
  "length (fst st) = length (snd st) \<Longrightarrow>
   length (fst (place stock gap st len)) = length (snd (place stock gap st len))"
  by (cases rule: place_cases [where st = st and len = len and stock = stock and gap = gap])
    simp_all

lemma mset_concat_update:
  "k < length ps \<Longrightarrow> mset (concat (ps[k := ps ! k @ [x]])) = mset (concat ps) + {#x#}"
proof (induction ps arbitrary: k)
  case Nil
  then show ?case by simp
next
  case (Cons p ps)
  then show ?case by (cases k) simp_all
qed

lemma place_mset:
  assumes "length (fst st) = length (snd st)"
  shows "mset (concat (fst (place stock gap st len))) = mset (concat (fst st)) + {#len#}"
proof (cases rule: place_cases [where st = st and len = len and stock = stock and gap = gap])
  case (fit k)
  then have "k < length (fst st)" using assms by simp
  then show ?thesis using fit(4) by (simp add: mset_concat_update)
next
  case new
  then show ?thesis by simp
qed

lemma foldl_place_aligned:
  "length (fst st) = length (snd st) \<Longrightarrow>
   length (fst (foldl (place stock gap) st ls)) = length (snd (foldl (place stock gap) st ls))"
  by (induction ls arbitrary: st) (simp_all add: place_aligned)

lemma foldl_place_mset:
  "length (fst st) = length (snd st) \<Longrightarrow>
   mset (concat (fst (foldl (place stock gap) st ls))) = mset (concat (fst st)) + mset ls"
  by (induction ls arbitrary: st) (simp_all add: place_aligned place_mset)

lemma first_fit_aligned:
  "length (fst (first_fit stock gap ls)) = length (snd (first_fit stock gap ls))"
  using foldl_place_aligned [of "([], [])" stock gap ls] by (simp add: first_fit_def)

lemma first_fit_mset: "mset (concat (fst (first_fit stock gap ls))) = mset ls"
  using foldl_place_mset [of "([], [])" stock gap ls] by (simp add: first_fit_def)

lemma in_set_update: "x \<in> set (xs[k := v]) \<Longrightarrow> x = v \<or> x \<in> set xs"
  using set_update_subset_insert [of xs k v] by auto

lemma place_remaining_bound:
  assumes "\<forall>r\<in>set (snd st). - gap \<le> r" "len \<le> stock"
  shows "\<forall>r\<in>set (snd (place stock gap st len)). - gap \<le> r"
proof (cases rule: place_cases [where st = st and len = len and stock = stock and gap = gap])
  case (fit k)
  then show ?thesis using assms(1) by (auto dest!: in_set_update)
next
  case new
  then show ?thesis using assms by auto
qed

lemma first_fit_remaining_bound:
  assumes "\<forall>l\<in>set ls. l \<le> stock"
  shows "\<forall>r\<in>set (snd (first_fit stock gap ls)). - gap \<le> r"
  unfolding first_fit_def
proof (rule foldl_place_invariant)
  show "\<forall>r\<in>set (snd ([], [])). - gap \<le> r" by simp
next
  fix st :: bars and len :: rat assume "\<forall>r\<in>set (snd st). - gap \<le> r" "len \<in> set ls"
  then show "\<forall>r\<in>set (snd (place stock gap st len)). - gap \<le> r"
    using place_remaining_bound assms by blast
qed

lemma place_nonempty:
  assumes "\<forall>p\<in>set (fst st). p \<noteq> []"
  shows "\<forall>p\<in>set (fst (place stock gap st len)). p \<noteq> []"
proof (cases rule: place_cases [where st = st and len = len and stock = stock and gap = gap])
  case (fit k)
  then show ?thesis using assms(1) by (auto dest!: in_set_update)
next
  case new
  then show ?thesis using assms by auto
qed

lemma first_fit_nonempty: "\<forall>p\<in>set (fst (first_fit stock gap ls)). p \<noteq> []"
  unfolding first_fit_def
proof (rule foldl_place_invariant)
  show "\<forall>p\<in>set (fst ([], [])). p \<noteq> []" by simp
next
  fix st :: bars and len :: rat assume "\<forall>p\<in>set (fst st). p \<noteq> []"
  then show "\<forall>p\<in>set (fst (place stock gap st len)). p \<noteq> []"
    by (rule place_nonempty)
qed

section \<open>Properties of the choice among the stock lengths\<close>

lemma try_stock_length_cases:
  "try_stock_length m gap ls b s = b \<or> try_stock_length m gap ls b s = candidate gap ls s"
  by (cases m) (simp_all add: try_stock_length_def Let_def)

lemma foldl_try_cases:
  "foldl (try_stock_length m gap ls) b opts = b
   \<or> (\<exists>s\<in>set opts. foldl (try_stock_length m gap ls) b opts = candidate gap ls s)"
proof (induction opts rule: rev_induct)
  case Nil
  then show ?case by simp
next
  case (snoc x xs)
  then show ?case
    using try_stock_length_cases [of m gap ls "foldl (try_stock_length m gap ls) b xs" x]
    by auto
qed

lemma best_solution_cases:
  "best_solution m sl gap opts ls = initial_best sl
   \<or> (\<exists>s\<in>set opts. best_solution m sl gap opts ls = candidate gap ls s)"
  unfolding best_solution_def by (rule foldl_try_cases)

lemma candidate_simps:
  "best_patterns (candidate gap ls s) = fst (first_fit s gap ls)"
  "best_remaining_lengths (candidate gap ls s) = snd (first_fit s gap ls)"
  "best_stock_length (candidate gap ls s) = s"
  "best_efficiency (candidate gap ls s) = current_efficiency s (fst (first_fit s gap ls))"
  "best_bar_count (candidate gap ls s) = enat (length (fst (first_fit s gap ls)))"
  by (simp_all add: candidate_def split: prod.splits)

lemma min_bar_count_first:
  "try_stock_length MinBarCount gap ls (initial_best sl) s = candidate gap ls s"
  by (simp add: try_stock_length_def Let_def initial_best_def candidate_simps)

lemma min_bar_count_fold:
  fixes count :: "'a \<Rightarrow> enat" and eff :: "'a \<Rightarrow> rat"
  assumes "opts \<noteq> []"
    and first: "\<And>x. f b0 x = C x"
    and step: "\<And>s x. f (C s) x =
        (if count x < count s \<or> (count x = count s \<and> eff x > eff s) then C x else C s)"
  shows "\<exists>pre s post. opts = pre @ s # post \<and> foldl f b0 opts = C s
          \<and> (\<forall>t\<in>set pre. count s < count t \<or> (count s = count t \<and> eff t < eff s))
          \<and> (\<forall>t\<in>set post. count s < count t \<or> (count s = count t \<and> eff t \<le> eff s))"
  using assms(1)
proof (induction opts rule: rev_induct)
  case Nil
  then show ?case by simp
next
  case (snoc x xs)
  define worse where "worse s t \<longleftrightarrow> count s < count t \<or> (count s = count t \<and> eff t < eff s)" for s t
  define nb where "nb s t \<longleftrightarrow> count s < count t \<or> (count s = count t \<and> eff t \<le> eff s)" for s t
  have tr1: "worse s t \<Longrightarrow> worse x s \<Longrightarrow> worse x t" for s t x
    by (auto simp: worse_def)
  have tr2: "nb s t \<Longrightarrow> worse x s \<Longrightarrow> worse x t" for s t x
    by (auto simp: worse_def nb_def)
  have neg: "\<not> worse x s \<Longrightarrow> nb s x" for s x
    by (auto simp: worse_def nb_def)
  have goal: "\<exists>pre s post. xs @ [x] = pre @ s # post \<and> foldl f b0 (xs @ [x]) = C s
          \<and> (\<forall>t\<in>set pre. worse s t) \<and> (\<forall>t\<in>set post. nb s t)"
  proof (cases "xs = []")
    case True
    have "xs @ [x] = [] @ x # [] \<and> foldl f b0 (xs @ [x]) = C x
          \<and> (\<forall>t\<in>set []. worse x t) \<and> (\<forall>t\<in>set []. nb x t)"
      using True first by simp
    then show ?thesis by (intro exI)
  next
    case False
    with snoc.IH obtain pre s post where xs: "xs = pre @ s # post"
      and b: "foldl f b0 xs = C s"
      and pre: "\<forall>t\<in>set pre. worse s t" and post: "\<forall>t\<in>set post. nb s t"
      unfolding worse_def nb_def by blast
    have st: "foldl f b0 (xs @ [x]) = (if worse x s then C x else C s)"
      using b step [of s x] by (simp add: worse_def)
    show ?thesis
    proof (cases "worse x s")
      case True
      have "\<forall>t\<in>set xs. worse x t"
        using xs pre post True tr1 tr2 by auto
      then have "xs @ [x] = xs @ x # [] \<and> foldl f b0 (xs @ [x]) = C x
          \<and> (\<forall>t\<in>set xs. worse x t) \<and> (\<forall>t\<in>set []. nb x t)"
        using st True by simp
      then show ?thesis by (intro exI)
    next
      case False
      then have "\<forall>t\<in>set (post @ [x]). nb s t"
        using post neg by auto
      then have "xs @ [x] = pre @ s # (post @ [x]) \<and> foldl f b0 (xs @ [x]) = C s
          \<and> (\<forall>t\<in>set pre. worse s t) \<and> (\<forall>t\<in>set (post @ [x]). nb s t)"
        using st False xs pre by simp
      then show ?thesis by (intro exI)
    qed
  qed
  then show ?case unfolding worse_def nb_def .
qed

lemma min_bar_count_split:
  assumes "opts \<noteq> []"
  shows "\<exists>pre s post. opts = pre @ s # post
          \<and> best_solution MinBarCount sl gap opts ls = candidate gap ls s
          \<and> (\<forall>t\<in>set pre.
                best_bar_count (candidate gap ls s) < best_bar_count (candidate gap ls t)
                \<or> (best_bar_count (candidate gap ls s) = best_bar_count (candidate gap ls t)
                    \<and> best_efficiency (candidate gap ls t) < best_efficiency (candidate gap ls s)))
          \<and> (\<forall>t\<in>set post.
                best_bar_count (candidate gap ls s) < best_bar_count (candidate gap ls t)
                \<or> (best_bar_count (candidate gap ls s) = best_bar_count (candidate gap ls t)
                    \<and> best_efficiency (candidate gap ls t) \<le> best_efficiency (candidate gap ls s)))"
  unfolding best_solution_def
proof (rule min_bar_count_fold [OF assms,
      where count = "\<lambda>s. best_bar_count (candidate gap ls s)"
        and eff = "\<lambda>s. best_efficiency (candidate gap ls s)"])
  show "try_stock_length MinBarCount gap ls (initial_best sl) x = candidate gap ls x" for x
    by (rule min_bar_count_first)
next
  show "try_stock_length MinBarCount gap ls (candidate gap ls s) x =
        (if best_bar_count (candidate gap ls x) < best_bar_count (candidate gap ls s)
            \<or> (best_bar_count (candidate gap ls x) = best_bar_count (candidate gap ls s)
                \<and> best_efficiency (candidate gap ls x) > best_efficiency (candidate gap ls s))
         then candidate gap ls x else candidate gap ls s)" for s x
    by (simp add: try_stock_length_def Let_def)
qed

lemma sum_list_mset_cong: "mset xs = mset ys \<Longrightarrow> sum_list xs = (sum_list ys :: rat)"
  by (metis sum_mset_sum_list)

lemma sum_list_pos_rat:
  "xs \<noteq> [] \<Longrightarrow> \<forall>x\<in>set xs. (0::rat) < x \<Longrightarrow> 0 < sum_list xs"
  by (induction xs) (auto intro: add_pos_nonneg sum_list_nonneg less_imp_le)

lemma sum_list_map_sum_list:
  "sum_list (map sum_list xss) = sum_list (concat xss :: rat list)"
  by (induction xss) simp_all

lemma first_fit_used_length:
  "sum_list (map sum_list (fst (first_fit s gap ls))) = sum_list ls"
proof -
  have "sum_list (map sum_list (fst (first_fit s gap ls)))
          = sum_list (concat (fst (first_fit s gap ls)))"
    by (rule sum_list_map_sum_list)
  also have "\<dots> = sum_list ls"
    by (rule sum_list_mset_cong) (rule first_fit_mset)
  finally show ?thesis .
qed

lemma first_fit_bars_nonempty: "ls \<noteq> [] \<Longrightarrow> fst (first_fit s gap ls) \<noteq> []"
  using first_fit_mset [of s gap ls] by auto

lemma candidate_efficiency_pos:
  assumes "0 < s" "ls \<noteq> []" "\<forall>l\<in>set ls. 0 < l"
  shows "0 < best_efficiency (candidate gap ls s)"
proof -
  have n: "0 < length (fst (first_fit s gap ls))"
    using first_fit_bars_nonempty [OF assms(2)] by simp
  then have "0 < s * of_nat (length (fst (first_fit s gap ls)))"
    using assms(1) by simp
  moreover have "0 < sum_list ls"
    using assms(2,3) by (rule sum_list_pos_rat)
  ultimately show ?thesis
    by (simp add: candidate_simps current_efficiency_def Let_def first_fit_used_length)
qed

lemma max_efficiency_step_mono:
  "best_efficiency b \<le> best_efficiency (try_stock_length MaxEfficiency gap ls b s)
   \<and> best_efficiency (candidate gap ls s)
       \<le> best_efficiency (try_stock_length MaxEfficiency gap ls b s)"
  by (simp add: try_stock_length_def Let_def)

lemma max_efficiency_foldl_mono:
  "best_efficiency b \<le> best_efficiency (foldl (try_stock_length MaxEfficiency gap ls) b opts)
   \<and> (\<forall>s\<in>set opts. best_efficiency (candidate gap ls s)
         \<le> best_efficiency (foldl (try_stock_length MaxEfficiency gap ls) b opts))"
proof (induction opts arbitrary: b)
  case Nil
  then show ?case by simp
next
  case (Cons x xs)
  let ?b' = "try_stock_length MaxEfficiency gap ls b x"
  from Cons.IH [of ?b'] max_efficiency_step_mono [of b gap ls x]
  show ?case by (auto intro: order_trans)
qed

lemma best_solution_is_candidate:
  assumes "opts \<noteq> []" "\<forall>s\<in>set opts. 0 < s" "ls \<noteq> []" "\<forall>l\<in>set ls. 0 < l"
  shows "\<exists>s\<in>set opts. best_solution m sl gap opts ls = candidate gap ls s"
proof (cases m)
  case MinBarCount
  from min_bar_count_split [OF assms(1), of sl gap ls]
  obtain pre s post where "opts = pre @ s # post"
    "best_solution MinBarCount sl gap opts ls = candidate gap ls s"
    by blast
  then show ?thesis using MinBarCount by auto
next
  case MaxEfficiency
  from assms(1) obtain x where x: "x \<in> set opts" by (cases opts) auto
  then have "0 < best_efficiency (candidate gap ls x)"
    using assms by (intro candidate_efficiency_pos) auto
  also have "\<dots> \<le> best_efficiency (best_solution MaxEfficiency sl gap opts ls)"
    unfolding best_solution_def using max_efficiency_foldl_mono x by blast
  finally have "best_solution MaxEfficiency sl gap opts ls \<noteq> initial_best sl"
    by (auto simp: initial_best_def)
  then show ?thesis
    using best_solution_cases [of MaxEfficiency sl gap opts ls] MaxEfficiency by simp
qed

section \<open>Structure of the three tables\<close>

lemma fst_foldl_pattern_step:
  "fst (foldl (pattern_step p pd s) (pdata, ar, n) zs)
     = pdata @ map2 (bar_row p s) [n..<n + length zs] zs"
proof (induction zs arbitrary: pdata ar n)
  case Nil
  then show ?case by simp
next
  case (Cons z zs)
  have "[n..<n + length (z # zs)] = n # [Suc n..<Suc n + length zs]"
    by (simp add: upt_rec)
  then show ?case
    using Cons.IH [of "pdata @ [bar_row p s n z]" _ "Suc n"]
    by (simp add: pattern_step_def)
qed

lemma fst_pattern_rows:
  "fst (pattern_rows p pd b ar)
     = map2 (bar_row p (best_stock_length b))
         [1..<1 + length (zip (best_patterns b) (best_remaining_lengths b))]
         (zip (best_patterns b) (best_remaining_lengths b))"
proof -
  have "fst (pattern_rows p pd b ar)
          = fst (foldl (pattern_step p pd (best_stock_length b)) ([], ar, 1)
                  (zip (best_patterns b) (best_remaining_lengths b)))"
    by (simp add: pattern_rows_def split: prod.splits)
  then show ?thesis by (simp only: fst_foldl_pattern_step append_Nil)
qed

lemma foldl_process_profile:
  "foldl (process_profile sl gap m opts ex) (ap, as, ar) codes = (ap', as', ar') \<Longrightarrow>
   ap' = ap @ concat (map (\<lambda>p. fst (pattern_rows p (profile_data ex p)
            (best_solution m sl gap opts (profile_lengths (profile_data ex p))) [])) codes)
   \<and> as' = as @ map (\<lambda>p. summary p gap (profile_lengths (profile_data ex p))
            (best_patterns (best_solution m sl gap opts (profile_lengths (profile_data ex p))))
            (fst (pattern_rows p (profile_data ex p)
               (best_solution m sl gap opts (profile_lengths (profile_data ex p))) []))) codes"
proof (induction codes arbitrary: ap as ar)
  case Nil
  then show ?case by simp
next
  case (Cons p codes)
  let ?b = "best_solution m sl gap opts (profile_lengths (profile_data ex p))"
  let ?rows = "fst (pattern_rows p (profile_data ex p) ?b [])"
  have rows: "fst (pattern_rows p (profile_data ex p) ?b ar) = ?rows"
    by (simp only: fst_pattern_rows)
  obtain x1 x2 where pr: "pattern_rows p (profile_data ex p) ?b ar = (x1, x2)"
    by (cases "pattern_rows p (profile_data ex p) ?b ar")
  with rows have x1: "x1 = ?rows" by simp
  have "process_profile sl gap m opts ex (ap, as, ar) p =
          (ap @ ?rows,
           as @ [summary p gap (profile_lengths (profile_data ex p)) (best_patterns ?b) ?rows],
           snd (pattern_rows p (profile_data ex p) ?b ar))"
    unfolding process_profile_def Let_def by (simp add: pr x1)
  with Cons.prems have
    "foldl (process_profile sl gap m opts ex)
       (ap @ ?rows,
        as @ [summary p gap (profile_lengths (profile_data ex p)) (best_patterns ?b) ?rows],
        snd (pattern_rows p (profile_data ex p) ?b ar)) codes = (ap', as', ar')"
    by simp
  from Cons.IH [OF this] show ?case by simp
qed

lemma unique_acc_set: "set (unique_acc seen xs) = set xs - set seen"
  by (induction seen xs rule: unique_acc.induct) auto

lemma unique_acc_distinct: "distinct (unique_acc seen xs)"
  by (induction seen xs rule: unique_acc.induct) (auto simp: unique_acc_set)

lemma set_unique: "set (unique xs) = set xs"
  by (simp add: unique_def unique_acc_set)

lemma distinct_unique: "distinct (unique xs)"
  by (simp add: unique_def unique_acc_distinct)

lemma filter_concat_distinct:
  assumes "distinct codes" and "\<And>q r. r \<in> set (rows q) \<Longrightarrow> key r = q"
  shows "filter (\<lambda>r. key r = p) (concat (map rows codes)) = (if p \<in> set codes then rows p else [])"
  using assms(1)
proof (induction codes)
  case Nil
  then show ?case by simp
next
  case (Cons q codes)
  have a: "filter (\<lambda>r. key r = p) (rows q) = (if q = p then rows q else [])"
    using assms(2) [of _ q] by (auto simp: filter_empty_conv intro: filter_True)
  have b: "p \<notin> set codes \<Longrightarrow> filter (\<lambda>r. key r = p) (concat (map rows codes)) = []"
    using Cons by auto
  show ?case using Cons a by auto
qed

lemma first_fit_Nil: "first_fit s gap [] = ([], [])"
  by (simp add: first_fit_def)

lemma best_solution_aligned:
  "length (best_patterns (best_solution m sl gap opts ls))
     = length (best_remaining_lengths (best_solution m sl gap opts ls))"
  using best_solution_cases [of m sl gap opts ls]
  by (auto simp: initial_best_def candidate_simps first_fit_aligned)

lemma best_solution_Nil_lengths: "best_patterns (best_solution m sl gap opts []) = []"
  using best_solution_cases [of m sl gap opts "[]"]
  by (auto simp: initial_best_def candidate_simps first_fit_Nil)

lemma best_solution_no_options: "best_solution m sl gap [] ls = initial_best sl"
  by (simp add: best_solution_def)

lemma map2_bar_row_fields:
  assumes "length ks = length zs"
  shows "map pt_Profile_Code (map2 (bar_row p s) ks zs) = replicate (length zs) p"
    and "map pt_Bar_Number (map2 (bar_row p s) ks zs) = ks"
    and "map pt_Stock_Length (map2 (bar_row p s) ks zs) = replicate (length zs) s"
    and "map pt_Remaining_Length (map2 (bar_row p s) ks zs) = map snd zs"
    and "map pt_Cutting_Pattern (map2 (bar_row p s) ks zs) = map fst zs"
  using assms
  by (induction ks zs rule: list_induct2) (simp_all add: bar_row_def split: prod.splits)

lemma profile_rows_fields:
  fixes b :: best
  assumes "length (best_patterns b) = length (best_remaining_lengths b)"
  shows "map pt_Profile_Code (fst (pattern_rows p pd b ar))
           = replicate (length (best_patterns b)) p"
    and "map pt_Bar_Number (fst (pattern_rows p pd b ar)) = [1..<1 + length (best_patterns b)]"
    and "map pt_Stock_Length (fst (pattern_rows p pd b ar))
           = replicate (length (best_patterns b)) (best_stock_length b)"
    and "map pt_Remaining_Length (fst (pattern_rows p pd b ar)) = best_remaining_lengths b"
    and "map pt_Cutting_Pattern (fst (pattern_rows p pd b ar)) = best_patterns b"
proof -
  let ?zs = "zip (best_patterns b) (best_remaining_lengths b)"
  have "length [1..<1 + k] = k" for k :: nat by simp
  then have l: "length [1..<1 + length ?zs] = length ?zs" .
  have n: "length ?zs = length (best_patterns b)" using assms by simp
  note f = map2_bar_row_fields [OF l, of p "best_stock_length b"]
  show "map pt_Profile_Code (fst (pattern_rows p pd b ar))
           = replicate (length (best_patterns b)) p"
    using f(1) n by (simp only: fst_pattern_rows)
  show "map pt_Bar_Number (fst (pattern_rows p pd b ar)) = [1..<1 + length (best_patterns b)]"
    using f(2) n by (simp only: fst_pattern_rows)
  show "map pt_Stock_Length (fst (pattern_rows p pd b ar))
           = replicate (length (best_patterns b)) (best_stock_length b)"
    using f(3) n by (simp only: fst_pattern_rows)
  show "map pt_Remaining_Length (fst (pattern_rows p pd b ar)) = best_remaining_lengths b"
    using f(4) assms by (simp only: fst_pattern_rows) simp
  show "map pt_Cutting_Pattern (fst (pattern_rows p pd b ar)) = best_patterns b"
    using f(5) assms by (simp only: fst_pattern_rows) simp
qed

lemma optimize_cutting_Inr:
  assumes "optimize_cutting input sl gap m so osl = Inr (result_df, patterns_df, summary_df)"
  shows "expanded_data input \<noteq> []"
    and "patterns_df =
      map (\<lambda>r. r\<lparr>pt_Efficiency := round4 (pt_Efficiency r)\<rparr>)
        (sort_key (\<lambda>r. (pt_Profile_Code r, pt_Bar_Number r))
          (concat (map (\<lambda>p. fst (pattern_rows p (profile_data (expanded_data input) p)
              (best_solution m sl gap (candidates sl so)
                 (profile_lengths (profile_data (expanded_data input) p))) []))
            (unique (map ex_Profile_Code (expanded_data input))))))"
    and "summary_df =
      map (\<lambda>r. r\<lparr>sm_Overall_Efficiency := round4 (sm_Overall_Efficiency r),
                 sm_Average_Bar_Efficiency := round4 (sm_Average_Bar_Efficiency r)\<rparr>)
        (sort_key sm_Profile_Code
          (map (\<lambda>p. summary p gap (profile_lengths (profile_data (expanded_data input) p))
              (best_patterns (best_solution m sl gap (candidates sl so)
                 (profile_lengths (profile_data (expanded_data input) p))))
              (fst (pattern_rows p (profile_data (expanded_data input) p)
                 (best_solution m sl gap (candidates sl so)
                    (profile_lengths (profile_data (expanded_data input) p))) [])))
            (unique (map ex_Profile_Code (expanded_data input)))))"
proof -
  let ?ex = "expanded_data input"
  let ?codes = "unique (map ex_Profile_Code ?ex)"
  show ne: "?ex \<noteq> []"
    using assms by (auto simp: optimize_cutting_def Let_def split: if_splits)
  obtain ap as ar where f:
    "foldl (process_profile sl gap m (candidates sl so) ?ex) ([], [], []) ?codes = (ap, as, ar)"
    by (cases "foldl (process_profile sl gap m (candidates sl so) ?ex) ([], [], []) ?codes")
  from assms ne f have
    p: "patterns_df = map (\<lambda>r. r\<lparr>pt_Efficiency := round4 (pt_Efficiency r)\<rparr>)
          (sort_key (\<lambda>r. (pt_Profile_Code r, pt_Bar_Number r)) ap)"
    and s: "summary_df =
      map (\<lambda>r. r\<lparr>sm_Overall_Efficiency := round4 (sm_Overall_Efficiency r),
                 sm_Average_Bar_Efficiency := round4 (sm_Average_Bar_Efficiency r)\<rparr>)
        (sort_key sm_Profile_Code as)"
    by (simp_all add: optimize_cutting_def Let_def)
  from foldl_process_profile [OF f] p s
  show "patterns_df =
      map (\<lambda>r. r\<lparr>pt_Efficiency := round4 (pt_Efficiency r)\<rparr>)
        (sort_key (\<lambda>r. (pt_Profile_Code r, pt_Bar_Number r))
          (concat (map (\<lambda>p. fst (pattern_rows p (profile_data (expanded_data input) p)
              (best_solution m sl gap (candidates sl so)
                 (profile_lengths (profile_data (expanded_data input) p))) []))
            (unique (map ex_Profile_Code (expanded_data input))))))"
    and "summary_df =
      map (\<lambda>r. r\<lparr>sm_Overall_Efficiency := round4 (sm_Overall_Efficiency r),
                 sm_Average_Bar_Efficiency := round4 (sm_Average_Bar_Efficiency r)\<rparr>)
        (sort_key sm_Profile_Code
          (map (\<lambda>p. summary p gap (profile_lengths (profile_data (expanded_data input) p))
              (best_patterns (best_solution m sl gap (candidates sl so)
                 (profile_lengths (profile_data (expanded_data input) p))))
              (fst (pattern_rows p (profile_data (expanded_data input) p)
                 (best_solution m sl gap (candidates sl so)
                    (profile_lengths (profile_data (expanded_data input) p))) [])))
            (unique (map ex_Profile_Code (expanded_data input)))))"
    by simp_all
qed

lemma optimize_cutting_returns:
  assumes "expanded_data input \<noteq> []"
  shows "\<exists>result_df patterns_df summary_df.
           optimize_cutting input sl gap m so osl = Inr (result_df, patterns_df, summary_df)"
  using assms by (simp add: optimize_cutting_def Let_def split: prod.splits)

lemma winner_aligned:
  "length (best_patterns (winner input sl gap m so p))
     = length (best_remaining_lengths (winner input sl gap m so p))"
  unfolding winner_def by (rule best_solution_aligned)

lemma winner_rows_fields:
  "map pt_Profile_Code (winner_rows input sl gap m so p)
     = replicate (length (best_patterns (winner input sl gap m so p))) p"
  "map pt_Bar_Number (winner_rows input sl gap m so p)
     = [1..<1 + length (best_patterns (winner input sl gap m so p))]"
  "map pt_Stock_Length (winner_rows input sl gap m so p)
     = replicate (length (best_patterns (winner input sl gap m so p)))
         (best_stock_length (winner input sl gap m so p))"
  "map pt_Remaining_Length (winner_rows input sl gap m so p)
     = best_remaining_lengths (winner input sl gap m so p)"
  "map pt_Cutting_Pattern (winner_rows input sl gap m so p)
     = best_patterns (winner input sl gap m so p)"
  unfolding winner_rows_def by (rule profile_rows_fields [OF winner_aligned])+

lemma winner_rows_code: "r \<in> set (winner_rows input sl gap m so q) \<Longrightarrow> pt_Profile_Code r = q"
proof -
  assume "r \<in> set (winner_rows input sl gap m so q)"
  then have "pt_Profile_Code r \<in> set (map pt_Profile_Code (winner_rows input sl gap m so q))"
    by simp
  then show ?thesis by (simp only: winner_rows_fields(1)) simp
qed

lemma profile_data_absent:
  "p \<notin> set (map ex_Profile_Code ex) \<Longrightarrow> profile_data ex p = []"
  by (auto simp: profile_data_def filter_empty_conv)

lemma winner_rows_absent:
  assumes "p \<notin> set (map ex_Profile_Code (expanded_data input))"
  shows "winner_rows input sl gap m so p = []"
proof -
  have "best_patterns (winner input sl gap m so p) = []"
    using profile_data_absent [OF assms]
    by (simp add: winner_def profile_lengths_def sort_descending_def best_solution_Nil_lengths)
  then have "map pt_Cutting_Pattern (winner_rows input sl gap m so p) = []"
    by (simp only: winner_rows_fields(5))
  then show ?thesis by simp
qed

lemma patterns_df_eq:
  assumes "optimize_cutting input sl gap m so osl = Inr (result_df, patterns_df, summary_df)"
  shows "patterns_df =
      map (\<lambda>r. r\<lparr>pt_Efficiency := round4 (pt_Efficiency r)\<rparr>)
        (sort_key (\<lambda>r. (pt_Profile_Code r, pt_Bar_Number r))
          (concat (map (winner_rows input sl gap m so)
            (unique (map ex_Profile_Code (expanded_data input))))))"
  using optimize_cutting_Inr(2) [OF assms] unfolding winner_rows_def winner_def .


lemma patterns_df_profile:
  assumes "optimize_cutting input sl gap m so osl = Inr (result_df, patterns_df, summary_df)"
  shows "mset (filter (\<lambda>r. pt_Profile_Code r = p) patterns_df)
           = image_mset (\<lambda>r. r\<lparr>pt_Efficiency := round4 (pt_Efficiency r)\<rparr>)
               (mset (winner_rows input sl gap m so p))"
proof -
  let ?codes = "unique (map ex_Profile_Code (expanded_data input))"
  let ?all = "concat (map (winner_rows input sl gap m so) ?codes)"
  let ?rd = "\<lambda>r. r\<lparr>pt_Efficiency := round4 (pt_Efficiency r)\<rparr>"
  have sel: "filter (\<lambda>r. pt_Profile_Code r = p) ?all = winner_rows input sl gap m so p"
  proof -
    have "filter (\<lambda>r. pt_Profile_Code r = p) ?all
            = (if p \<in> set ?codes then winner_rows input sl gap m so p else [])"
      by (rule filter_concat_distinct) (simp_all add: distinct_unique winner_rows_code)
    then show ?thesis
      using winner_rows_absent [of p input sl gap m so] by (simp add: set_unique)
  qed
  have "filter (\<lambda>r. pt_Profile_Code r = p) patterns_df
          = map ?rd (filter (\<lambda>r. pt_Profile_Code r = p)
              (sort_key (\<lambda>r. (pt_Profile_Code r, pt_Bar_Number r)) ?all))"
    by (simp add: patterns_df_eq [OF assms] filter_map o_def)
  then have "mset (filter (\<lambda>r. pt_Profile_Code r = p) patterns_df)
          = image_mset ?rd (mset (filter (\<lambda>r. pt_Profile_Code r = p) ?all))"
    by (simp add: filter_sort)
  then show ?thesis by (simp only: sel)
qed



lemma mset_concat_map: "mset (concat (map g xs)) = (\<Sum>x\<in>#mset xs. mset (g x))"
  by (induction xs) simp_all

lemma mset_concat_map_image_mset:
  assumes "mset xs = image_mset f (mset ys)"
  shows "mset (concat (map g xs)) = mset (concat (map (\<lambda>y. g (f y)) ys))"
  by (simp add: mset_concat_map assms image_mset.compositionality o_def)

lemma profile_lengths_facts:
  "sum_list (profile_lengths pd) = sum_list (map ex_Length pd)"
  "length (profile_lengths pd) = length pd"
  "mset (profile_lengths pd) = mset (map ex_Length pd)"
  "set (profile_lengths pd) = ex_Length ` set pd"
proof -
  show m: "mset (profile_lengths pd) = mset (map ex_Length pd)"
    by (simp add: profile_lengths_def mset_sort_descending)
  show "sum_list (profile_lengths pd) = sum_list (map ex_Length pd)"
    using m by (rule sum_list_mset_cong)
  show "length (profile_lengths pd) = length pd"
    using mset_eq_length [OF m] by simp
  show "set (profile_lengths pd) = ex_Length ` set pd"
    using mset_eq_setD [OF m] by simp
qed


lemma expanded_length_pos:
  assumes "\<forall>row\<in>set input. 0 < in_Length row" "it \<in> set (expanded_data input)"
  shows "0 < ex_Length it"
  using assms by (auto simp: expanded_data_def expand_row_def)

lemma winner_candidate:
  assumes "candidates sl so \<noteq> []" "\<forall>s\<in>set (candidates sl so). 0 < s"
    and "\<forall>row\<in>set input. 0 < in_Length row"
    and "profile_data (expanded_data input) p \<noteq> []"
  shows "\<exists>s\<in>set (candidates sl so).
           winner input sl gap m so p
             = candidate gap (profile_lengths (profile_data (expanded_data input) p)) s"
  unfolding winner_def
proof (rule best_solution_is_candidate [OF assms(1,2)])
  let ?pd = "profile_data (expanded_data input) p"
  show "profile_lengths ?pd \<noteq> []"
    using assms(4) profile_lengths_facts(2) [of ?pd] by auto
  show "\<forall>l\<in>set (profile_lengths ?pd). 0 < l"
    using expanded_length_pos [OF assms(3)]
    by (auto simp: profile_lengths_facts(4) profile_data_def)
qed

lemma pattern_rows_initial: "pattern_rows p pd (initial_best sl) ar = ([], ar)"
  by (simp add: pattern_rows_def initial_best_def)

lemma foldl_process_profile_no_options:
  "foldl (process_profile sl gap m [] ex) (ap, as, ar) codes
     = (ap, as @ map (\<lambda>p. summary p gap (profile_lengths (profile_data ex p)) [] []) codes, ar)"
proof (induction codes arbitrary: as)
  case Nil
  then show ?case by simp
next
  case (Cons p codes)
  have "process_profile sl gap m [] ex (ap, as, ar) p
          = (ap, as @ [summary p gap (profile_lengths (profile_data ex p)) [] []], ar)"
    by (simp add: process_profile_def Let_def best_solution_no_options pattern_rows_initial)
      (simp add: initial_best_def)
  then show ?case using Cons.IH by simp
qed

section \<open>Lengths beyond the stock length\<close>

lemma place_capacity:
  assumes "\<forall>r\<in>set (snd st). r < s" "0 < len" "0 \<le> gap"
  shows "\<forall>r\<in>set (snd (place s gap st len)). r < s"
proof (cases rule: place_cases [where st = st and len = len and stock = s and gap = gap])
  case (fit k)
  then have "snd st ! k < s" using assms(1) by simp
  then have "snd st ! k - len - gap < s" using assms(2,3) by simp
  then show ?thesis using fit(4) assms(1) by (auto dest!: in_set_update)
next
  case new
  then show ?thesis using assms by auto
qed

lemma place_keeps_negative:
  assumes "length (fst st) = length (snd st)"
    and "i < length (snd st)" "l \<in> set (fst st ! i)" "snd st ! i < 0"
    and "0 < len" "0 \<le> gap"
  shows "i < length (snd (place s gap st len)) \<and> l \<in> set (fst (place s gap st len) ! i)
         \<and> snd (place s gap st len) ! i < 0"
proof (cases rule: place_cases [where st = st and len = len and stock = s and gap = gap])
  case (fit k)
  show ?thesis
  proof (cases "i = k")
    case True
    then show ?thesis using fit assms by simp
  next
    case False
    then show ?thesis using fit(4) assms by simp
  qed
next
  case new
  then show ?thesis using assms by (simp add: nth_append)
qed

lemma place_opens_negative:
  assumes "length (fst st) = length (snd st)" "\<forall>r\<in>set (snd st). r < s" "s < l" "0 \<le> gap"
  shows "length (snd st) < length (snd (place s gap st l))
         \<and> l \<in> set (fst (place s gap st l) ! length (snd st))
         \<and> snd (place s gap st l) ! length (snd st) < 0"
proof (cases rule: place_cases [where st = st and len = l and stock = s and gap = gap])
  case (fit k)
  then have "snd st ! k < s" using assms(2) by simp
  then show ?thesis using fit(2) assms(3) by simp
next
  case new
  then show ?thesis using assms by (simp add: nth_append)
qed

lemma foldl_place_negative:
  assumes "length (fst st) = length (snd st)" "\<forall>r\<in>set (snd st). r < s"
    and "(\<exists>i<length (snd st). l \<in> set (fst st ! i) \<and> snd st ! i < 0) \<or> l \<in> set ls"
    and "\<forall>len\<in>set ls. 0 < len" "0 \<le> gap" "s < l"
  shows "\<exists>i<length (snd (foldl (place s gap) st ls)).
           l \<in> set (fst (foldl (place s gap) st ls) ! i)
           \<and> snd (foldl (place s gap) st ls) ! i < 0"
  using assms(1,2,3,4)
proof (induction ls arbitrary: st)
  case Nil
  then show ?case by simp
next
  case (Cons len ls)
  let ?st = "place s gap st len"
  have len: "0 < len" using Cons.prems(4) by simp
  have a: "length (fst ?st) = length (snd ?st)"
    using Cons.prems(1) by (rule place_aligned)
  have c: "\<forall>r\<in>set (snd ?st). r < s"
    using Cons.prems(2) len assms(5) by (rule place_capacity)
  have q: "(\<exists>i<length (snd ?st). l \<in> set (fst ?st ! i) \<and> snd ?st ! i < 0) \<or> l \<in> set ls"
  proof -
    consider (old) i where "i < length (snd st)" "l \<in> set (fst st ! i)" "snd st ! i < 0"
      | (now) "l = len" | (later) "l \<in> set ls"
      using Cons.prems(3) by auto
    then show ?thesis
    proof cases
      case (old i)
      from place_keeps_negative [OF Cons.prems(1) old len assms(5), of s]
      show ?thesis by blast
    next
      case now
      from place_opens_negative [OF Cons.prems(1,2) assms(6,5)] now
      show ?thesis by blast
    next
      case later
      then show ?thesis by simp
    qed
  qed
  have p: "\<forall>len\<in>set ls. 0 < len" using Cons.prems(4) by simp
  from Cons.IH [OF a c q p] show ?case by simp
qed

lemma first_fit_negative:
  assumes "l \<in> set ls" "s < l" "\<forall>len\<in>set ls. 0 < len" "0 \<le> gap"
  shows "\<exists>i<length (snd (first_fit s gap ls)).
           l \<in> set (fst (first_fit s gap ls) ! i) \<and> snd (first_fit s gap ls) ! i < 0"
  unfolding first_fit_def
  by (rule foldl_place_negative) (use assms in simp_all)

section \<open>The range of the numbers of a run\<close>

text \<open>
  The remaining capacity of a bar is the stock length minus the pieces of the bar, each
  with its gap. With lengths and a gap that are not negative it therefore lies between the
  stock length minus all lengths with their gaps and the stock length, and a run opens at
  most as many bars as there are lengths. Lemma \<open>sums_within_int64\<close> draws the consequence
  for the source's 64-bit integers: under its bounds the used length, the stock length
  times the bar count and every remaining capacity of a run stay inside \<open>(-2^63, 2^63)\<close>, where
  integer arithmetic does not wrap.
\<close>

lemma place_remaining_eq:
  assumes "length (fst st) = length (snd st)"
    and "\<forall>i<length (snd st). snd st ! i = s - sum_list (map (\<lambda>l. l + gap) (fst st ! i))"
  shows "\<forall>i<length (snd (place s gap st len)).
           snd (place s gap st len) ! i
             = s - sum_list (map (\<lambda>l. l + gap) (fst (place s gap st len) ! i))"
proof (cases rule: place_cases [where st = st and len = len and stock = s and gap = gap])
  case (fit k)
  have "k < length (fst st)" using fit(1) assms(1) by simp
  then show ?thesis
    using fit assms by (auto simp: nth_list_update)
next
  case new
  then show ?thesis using assms by (auto simp: nth_append)
qed

lemma first_fit_remaining_eq:
  "\<forall>i<length (snd (first_fit s gap ls)).
     snd (first_fit s gap ls) ! i
       = s - sum_list (map (\<lambda>l. l + gap) (fst (first_fit s gap ls) ! i))"
proof -
  have "length (fst (foldl (place s gap) ([], []) ls)) = length (snd (foldl (place s gap) ([], []) ls))
        \<and> (\<forall>i<length (snd (foldl (place s gap) ([], []) ls)).
              snd (foldl (place s gap) ([], []) ls) ! i
                = s - sum_list (map (\<lambda>l. l + gap) (fst (foldl (place s gap) ([], []) ls) ! i)))"
  proof (rule foldl_place_invariant
      [where P = "\<lambda>st. length (fst st) = length (snd st)
                 \<and> (\<forall>i<length (snd st). snd st ! i = s - sum_list (map (\<lambda>l. l + gap) (fst st ! i)))"])
    show "length (fst ([], [])) = length (snd (([], []) :: bars))
          \<and> (\<forall>i<length (snd (([], []) :: bars)).
                snd (([], []) :: bars) ! i = s - sum_list (map (\<lambda>l. l + gap) (fst (([], []) :: bars) ! i)))"
      by simp
  next
    fix st :: bars and len :: rat
    assume "length (fst st) = length (snd st)
            \<and> (\<forall>i<length (snd st). snd st ! i = s - sum_list (map (\<lambda>l. l + gap) (fst st ! i)))"
    then show "length (fst (place s gap st len)) = length (snd (place s gap st len))
               \<and> (\<forall>i<length (snd (place s gap st len)).
                     snd (place s gap st len) ! i
                       = s - sum_list (map (\<lambda>l. l + gap) (fst (place s gap st len) ! i)))"
      using place_aligned place_remaining_eq by blast
  qed
  then show ?thesis by (simp add: first_fit_def)
qed

lemma sum_list_map_nonneg:
  fixes f :: "'a \<Rightarrow> rat"
  shows "\<forall>x\<in>set xs. 0 \<le> f x \<Longrightarrow> 0 \<le> sum_list (map f xs)"
  by (induction xs) simp_all

lemma sum_list_nth_le_concat:
  fixes f :: "rat \<Rightarrow> rat"
  assumes "\<forall>x\<in>set (concat ps). 0 \<le> f x" "i < length ps"
  shows "sum_list (map f (ps ! i)) \<le> sum_list (map f (concat ps))"
  using assms
proof (induction ps arbitrary: i)
  case Nil
  then show ?case by simp
next
  case (Cons p ps)
  have a: "0 \<le> sum_list (map f p)"
    using Cons.prems(1) by (intro sum_list_map_nonneg) simp
  have b: "0 \<le> sum_list (map f (concat ps))"
    using Cons.prems(1) by (intro sum_list_map_nonneg) simp
  show ?case
  proof (cases i)
    case 0
    then show ?thesis using b by simp
  next
    case (Suc j)
    then have "sum_list (map f (ps ! j)) \<le> sum_list (map f (concat ps))"
      using Cons.IH [of j] Cons.prems by simp
    then show ?thesis using Suc a by simp
  qed
qed

lemma first_fit_charged:
  "sum_list (map (\<lambda>l. l + gap) (concat (fst (first_fit s gap ls))))
     = sum_list (map (\<lambda>l. l + gap) ls)"
proof -
  have "mset (map (\<lambda>l. l + gap) (concat (fst (first_fit s gap ls))))
          = mset (map (\<lambda>l. l + gap) ls)"
    by (simp add: first_fit_mset)
  then show ?thesis by (rule sum_list_mset_cong)
qed

lemma first_fit_remaining_range:
  assumes "\<forall>l\<in>set ls. 0 \<le> l" "0 \<le> gap" "r \<in> set (snd (first_fit s gap ls))"
  shows "s - sum_list (map (\<lambda>l. l + gap) ls) \<le> r \<and> r \<le> s"
proof -
  let ?ps = "fst (first_fit s gap ls)"
  from assms(3) obtain i where i: "i < length (snd (first_fit s gap ls))"
    and r: "r = snd (first_fit s gap ls) ! i"
    by (auto simp: in_set_conv_nth)
  have eq: "r = s - sum_list (map (\<lambda>l. l + gap) (?ps ! i))"
    using first_fit_remaining_eq i r by simp
  have ip: "i < length ?ps" using i by (simp add: first_fit_aligned)
  have "set (concat ?ps) = set ls"
    using mset_eq_setD [OF first_fit_mset [of s gap ls]] .
  then have nn: "\<forall>x\<in>set (concat ?ps). 0 \<le> x + gap"
    using assms(1,2) by auto
  have "sum_list (map (\<lambda>l. l + gap) (?ps ! i)) \<le> sum_list (map (\<lambda>l. l + gap) (concat ?ps))"
    using nn ip by (rule sum_list_nth_le_concat)
  then have up: "sum_list (map (\<lambda>l. l + gap) (?ps ! i)) \<le> sum_list (map (\<lambda>l. l + gap) ls)"
    by (simp only: first_fit_charged)
  have "?ps ! i \<in> set ?ps" using ip by simp
  then have "set (?ps ! i) \<subseteq> set (concat ?ps)" by auto
  then have "\<forall>x\<in>set (?ps ! i). 0 \<le> x + gap" using nn by auto
  then have lo: "0 \<le> sum_list (map (\<lambda>l. l + gap) (?ps ! i))"
    by (rule sum_list_map_nonneg)
  show ?thesis using eq up lo by simp
qed

lemma length_le_length_concat: "\<forall>p\<in>set ps. p \<noteq> [] \<Longrightarrow> length ps \<le> length (concat ps)"
proof (induction ps)
  case Nil
  then show ?case by simp
next
  case (Cons p ps)
  then show ?case by (cases p) simp_all
qed

lemma first_fit_bar_count: "length (fst (first_fit s gap ls)) \<le> length ls"
proof -
  have "length (fst (first_fit s gap ls)) \<le> length (concat (fst (first_fit s gap ls)))"
    using first_fit_nonempty by (rule length_le_length_concat)
  also have "\<dots> = length ls"
    using mset_eq_length [OF first_fit_mset [of s gap ls]] .
  finally show ?thesis .
qed

lemma expanded_length_input:
  "it \<in> set (expanded_data input) \<Longrightarrow> \<exists>row\<in>set input. ex_Length it = in_Length row"
  by (auto simp: expanded_data_def expand_row_def)

lemma sum_list_filter_le:
  fixes f :: "'a \<Rightarrow> rat"
  shows "\<forall>x\<in>set xs. 0 \<le> f x \<Longrightarrow> sum_list (map f (filter P xs)) \<le> sum_list (map f xs)"
  by (induction xs) (auto intro: add_increasing)

lemma mset_map_map_cong:
  assumes "mset xs = mset (map g ys)"
  shows "mset (map f xs) = mset (map (\<lambda>y. f (g y)) ys)"
proof -
  have "mset (map f xs) = image_mset f (mset xs)" by simp
  also have "\<dots> = image_mset f (mset (map g ys))" by (simp only: assms)
  also have "\<dots> = mset (map (\<lambda>y. f (g y)) ys)"
    by (simp add: image_mset.compositionality o_def)
  finally show ?thesis .
qed

lemma sum_list_le_charged:
  fixes gap :: rat
  shows "0 \<le> gap \<Longrightarrow> sum_list xs \<le> sum_list (map (\<lambda>l. l + gap) xs)"
  by (induction xs) simp_all

lemma sums_within_int64:
  assumes lengths: "\<forall>row\<in>set input_data. 1 \<le> in_Length row"
    and gap: "0 \<le> cutting_gap"
    and total: "sum_list (map (\<lambda>it. ex_Length it + cutting_gap) (expanded_data input_data)) < 2 ^ 63"
    and stock: "0 < s" "s * of_nat (length (expanded_data input_data)) < 2 ^ 63"
  shows "sum_list (map sum_list (fst (first_fit s cutting_gap
            (profile_lengths (profile_data (expanded_data input_data) p))))) < 2 ^ 63"
    and "s * of_nat (length (fst (first_fit s cutting_gap
            (profile_lengths (profile_data (expanded_data input_data) p))))) < 2 ^ 63"
    and "\<forall>r\<in>set (snd (first_fit s cutting_gap
            (profile_lengths (profile_data (expanded_data input_data) p)))).
           - (2 ^ 63) < r \<and> r < 2 ^ 63"
proof -
  let ?ex = "expanded_data input_data"
  let ?pd = "profile_data ?ex p"
  let ?L = "profile_lengths ?pd"
  have ex1: "\<forall>it\<in>set ?ex. 1 \<le> ex_Length it"
  proof
    fix it assume "it \<in> set ?ex"
    from expanded_length_input [OF this] obtain row
      where "row \<in> set input_data" "ex_Length it = in_Length row" by blast
    then show "1 \<le> ex_Length it" using lengths by simp
  qed
  have exn: "\<forall>it\<in>set ?ex. 0 \<le> ex_Length it + cutting_gap"
  proof
    fix it assume "it \<in> set ?ex"
    then have "1 \<le> ex_Length it" using ex1 by simp
    then show "0 \<le> ex_Length it + cutting_gap" using gap by simp
  qed
  have L1: "\<forall>l\<in>set ?L. 0 \<le> l"
  proof
    fix l assume "l \<in> set ?L"
    then obtain it where "it \<in> set ?ex" "l = ex_Length it"
      by (auto simp: profile_lengths_facts(4) profile_data_def)
    then show "0 \<le> l" using ex1 by fastforce
  qed
  have "mset (map (\<lambda>l. l + cutting_gap) ?L) = mset (map (\<lambda>it. ex_Length it + cutting_gap) ?pd)"
    using profile_lengths_facts(3) [of ?pd] by (rule mset_map_map_cong)
  then have "sum_list (map (\<lambda>l. l + cutting_gap) ?L)
               = sum_list (map (\<lambda>it. ex_Length it + cutting_gap) ?pd)"
    by (rule sum_list_mset_cong)
  also have "\<dots> \<le> sum_list (map (\<lambda>it. ex_Length it + cutting_gap) ?ex)"
    unfolding profile_data_def using exn by (rule sum_list_filter_le)
  finally have charged: "sum_list (map (\<lambda>l. l + cutting_gap) ?L) < 2 ^ 63"
    using total by simp
  have "sum_list ?L \<le> sum_list (map (\<lambda>l. l + cutting_gap) ?L)"
    using gap by (rule sum_list_le_charged)
  then show "sum_list (map sum_list (fst (first_fit s cutting_gap ?L))) < 2 ^ 63"
    using charged by (simp add: first_fit_used_length)
  have "length (fst (first_fit s cutting_gap ?L)) \<le> length ?L"
    by (rule first_fit_bar_count)
  also have "\<dots> \<le> length ?ex"
    by (simp add: profile_lengths_facts(2) profile_data_def)
  finally have n: "length (fst (first_fit s cutting_gap ?L)) \<le> length ?ex" .
  have "s * of_nat (length (fst (first_fit s cutting_gap ?L))) \<le> s * of_nat (length ?ex)"
    using stock(1) n by (simp add: mult_left_mono)
  then show "s * of_nat (length (fst (first_fit s cutting_gap ?L))) < 2 ^ 63"
    using stock(2) by simp
  show "\<forall>r\<in>set (snd (first_fit s cutting_gap ?L)). - (2 ^ 63) < r \<and> r < 2 ^ 63"
  proof
    fix r assume r: "r \<in> set (snd (first_fit s cutting_gap ?L))"
    from first_fit_remaining_range [OF L1 gap r]
    have lo: "s - sum_list (map (\<lambda>l. l + cutting_gap) ?L) \<le> r" and up: "r \<le> s" by simp_all
    from r have "?L \<noteq> []" by (auto simp: first_fit_Nil)
    then have "?ex \<noteq> []" by (auto simp: profile_lengths_def sort_descending_def profile_data_def)
    then have "1 \<le> (of_nat (length ?ex) :: rat)" by (cases ?ex) simp_all
    then have "s \<le> s * of_nat (length ?ex)" using stock(1) by simp
    then have "s < 2 ^ 63" using stock(2) by simp
    then show "- (2 ^ 63) < r \<and> r < 2 ^ 63"
      using lo up charged stock(1) by simp
  qed
qed

section \<open>The claims\<close>

text \<open>
  Claim C1: one row of the Results table per expanded item. The code at a table in which the
  profile code \<open>A\<close> stands on two lines, two pieces of 1200 and two of 800: four items are
  expanded and all four pieces are cut from one bar, but the Results table has two rows. The
  items of the second line carry the item ids of the first, so the search for an unassigned
  item of length 800 finds nothing and the two pieces get no row.
\<close>

theorem assignments_missing:
  "optimize_cutting
     [\<lparr>in_Profile_Code = ''A'', in_Length = 1200, in_Quantity = 2\<rparr>,
      \<lparr>in_Profile_Code = ''A'', in_Length = 800, in_Quantity = 2\<rparr>]
     6000 10 MaxEfficiency None False
   = Inr ([\<lparr>rs_Profile_Code = ''A'', rs_Item_ID = ''A_1'', rs_Length = 1200, rs_Bar_Number = 1\<rparr>,
       \<lparr>rs_Profile_Code = ''A'', rs_Item_ID = ''A_2'', rs_Length = 1200, rs_Bar_Number = 1\<rparr>],
      [\<lparr>pt_Profile_Code = ''A'', pt_Bar_Number = 1, pt_Stock_Length = 6000, pt_Used_Length = 4040,
        pt_Remaining_Length = 1960, pt_Efficiency = Some (6667 / 10000), pt_Cutting_Pattern = [1200, 1200, 800, 800],
        pt_Pieces = 4\<rparr>],
      [\<lparr>sm_Profile_Code = ''A'', sm_Total_Pieces = 4, sm_Total_Bars_Used = 1,
        sm_Total_Length_Needed = 4000, sm_Total_Stock_Length = 6000, sm_Waste = 1970,
        sm_Overall_Efficiency = Some (6667 / 10000), sm_Average_Bar_Efficiency = Some (6667 / 10000)\<rparr>])"
  by code_simp

text \<open>
  Claim C2: item ids pairwise distinct within a profile code, also when the code stands on
  more than one line. The code at the same table: the index restarts at 1 on every line, and
  the four items of profile \<open>A\<close> carry two ids.
\<close>

theorem item_ids_repeat:
  "map ex_Item_ID (expanded_data
     [\<lparr>in_Profile_Code = ''A'', in_Length = 1200, in_Quantity = 2\<rparr>,
      \<lparr>in_Profile_Code = ''A'', in_Length = 800, in_Quantity = 2\<rparr>])
   = [''A_1'', ''A_2'', ''A_1'', ''A_2'']"
  by code_simp

text \<open>
  Claim C3. For every profile (the rows \<open>pdata\<close> of its items) and every candidate stock
  length, the lengths the generator is run on are the demanded lengths in descending order,
  and the bars and remaining capacities scored for the candidate are those of the first-fit
  scan of the specification: each length goes to the first-created bar whose remaining
  capacity is at least the length, which loses the length plus the cutting gap, and
  otherwise opens a new bar with remaining capacity stock length minus length minus cutting
  gap.
\<close>

theorem first_fit_decreasing_refines_spec:
  "sorted_wrt (\<ge>) (profile_lengths pdata)
   \<and> mset (profile_lengths pdata) = mset (map ex_Length pdata)
   \<and> first_fit current_stock_length cutting_gap (profile_lengths pdata)
       = spec_pattern_generator current_stock_length cutting_gap (profile_lengths pdata)
   \<and> (best_patterns (candidate cutting_gap (profile_lengths pdata) current_stock_length),
       best_remaining_lengths (candidate cutting_gap (profile_lengths pdata) current_stock_length))
       = spec_pattern_generator current_stock_length cutting_gap (profile_lengths pdata)"
proof -
  have "sorted_wrt (\<ge>) (profile_lengths pdata)"
    unfolding profile_lengths_def by (rule sort_descending_sorted)
  moreover have "mset (profile_lengths pdata) = mset (map ex_Length pdata)"
    by (rule profile_lengths_facts(3))
  moreover have "first_fit current_stock_length cutting_gap (profile_lengths pdata)
       = spec_pattern_generator current_stock_length cutting_gap (profile_lengths pdata)"
    by (rule first_fit_spec)
  moreover have
    "(best_patterns (candidate cutting_gap (profile_lengths pdata) current_stock_length),
      best_remaining_lengths (candidate cutting_gap (profile_lengths pdata) current_stock_length))
       = first_fit current_stock_length cutting_gap (profile_lengths pdata)"
    by (simp add: candidate_simps)
  ultimately show ?thesis by simp
qed

text \<open>
  Claim C4. The model computes with exact numbers, the source with 64-bit ones; the
  hypotheses keep the table where the two agree: at least one candidate stock length, every
  demanded length at least 1, a cutting gap that is not negative, the lengths with their
  gaps summing to less than \<open>2^63\<close> over the expanded table, and every candidate positive and,
  multiplied by the number of expanded items, below \<open>2^63\<close> (lemma \<open>sums_within_int64\<close>: no sum
  of a first-fit run or of its scoring then leaves the range of a 64-bit integer). Then the
  pieces of the bars that the Patterns table lists for a profile are, as a multiset, exactly
  the demanded lengths of that profile.
\<close>

theorem pieces_equal_demand:
  assumes run: "optimize_cutting input_data stock_length cutting_gap optimization_method
                  stock_length_options optimize_stock_length
                = Inr (result_df, patterns_df, summary_df)"
    and options: "candidates stock_length stock_length_options \<noteq> []"
    and stock: "\<forall>s\<in>set (candidates stock_length stock_length_options).
                  0 < s \<and> s * of_nat (length (expanded_data input_data)) < 2 ^ 63"
    and lengths: "\<forall>row\<in>set input_data. 1 \<le> in_Length row"
    and gap: "0 \<le> cutting_gap"
    and total: "sum_list (map (\<lambda>it. ex_Length it + cutting_gap) (expanded_data input_data))
                  < 2 ^ 63"
  shows "mset (concat (map pt_Cutting_Pattern
                 (filter (\<lambda>r. pt_Profile_Code r = profile_code) patterns_df)))
       = mset (map ex_Length
                 (filter (\<lambda>it. ex_Profile_Code it = profile_code) (expanded_data input_data)))"
proof -
  let ?p = profile_code
  let ?pd = "profile_data (expanded_data input_data) ?p"
  let ?w = "winner input_data stock_length cutting_gap optimization_method
              stock_length_options ?p"
  let ?rows = "winner_rows input_data stock_length cutting_gap optimization_method
                 stock_length_options ?p"
  have pos: "\<forall>s\<in>set (candidates stock_length stock_length_options). 0 < s"
    using stock by simp
  have lpos: "\<forall>row\<in>set input_data. 0 < in_Length row"
  proof
    fix row assume "row \<in> set input_data"
    then have "1 \<le> in_Length row" using lengths by simp
    then show "0 < in_Length row" by simp
  qed
  have m: "mset (filter (\<lambda>r. pt_Profile_Code r = ?p) patterns_df)
           = image_mset (\<lambda>r. r\<lparr>pt_Efficiency := round4 (pt_Efficiency r)\<rparr>) (mset ?rows)"
    by (rule patterns_df_profile [OF run])
  have "mset (concat (map pt_Cutting_Pattern (filter (\<lambda>r. pt_Profile_Code r = ?p) patterns_df)))
          = mset (concat (map pt_Cutting_Pattern ?rows))"
    using mset_concat_map_image_mset [OF m, of pt_Cutting_Pattern] by simp
  also have "\<dots> = mset (concat (best_patterns ?w))"
    by (simp only: winner_rows_fields(5))
  also have "\<dots> = mset (profile_lengths ?pd)"
  proof (cases "?pd = []")
    case True
    then show ?thesis
      by (simp add: winner_def profile_lengths_def sort_descending_def
            best_solution_Nil_lengths)
  next
    case False
    from winner_candidate [OF options pos lpos False, of cutting_gap optimization_method]
    obtain s where "?w = candidate cutting_gap (profile_lengths ?pd) s" by blast
    then show ?thesis by (simp add: candidate_simps first_fit_mset)
  qed
  also have "\<dots> = mset (map ex_Length ?pd)"
    by (rule profile_lengths_facts(3))
  finally show ?thesis by (simp add: profile_data_def)
qed

theorem pieces_equal_demand_witness:
  "optimize_cutting
     [\<lparr>in_Profile_Code = ''A'', in_Length = 1200, in_Quantity = 3\<rparr>]
     2500 10 MaxEfficiency None False
   = Inr ([\<lparr>rs_Profile_Code = ''A'', rs_Item_ID = ''A_1'', rs_Length = 1200, rs_Bar_Number = 1\<rparr>,
       \<lparr>rs_Profile_Code = ''A'', rs_Item_ID = ''A_2'', rs_Length = 1200, rs_Bar_Number = 1\<rparr>,
       \<lparr>rs_Profile_Code = ''A'', rs_Item_ID = ''A_3'', rs_Length = 1200, rs_Bar_Number = 2\<rparr>],
      [\<lparr>pt_Profile_Code = ''A'', pt_Bar_Number = 1, pt_Stock_Length = 2500, pt_Used_Length = 2420,
        pt_Remaining_Length = 80, pt_Efficiency = Some (24 / 25), pt_Cutting_Pattern = [1200, 1200],
        pt_Pieces = 2\<rparr>,
       \<lparr>pt_Profile_Code = ''A'', pt_Bar_Number = 2, pt_Stock_Length = 2500, pt_Used_Length = 1210,
        pt_Remaining_Length = 1290, pt_Efficiency = Some (12 / 25), pt_Cutting_Pattern = [1200],
        pt_Pieces = 1\<rparr>],
      [\<lparr>sm_Profile_Code = ''A'', sm_Total_Pieces = 3, sm_Total_Bars_Used = 2,
        sm_Total_Length_Needed = 3600, sm_Total_Stock_Length = 5000, sm_Waste = 1390,
        sm_Overall_Efficiency = Some (18 / 25), sm_Average_Bar_Efficiency = Some (18 / 25)\<rparr>])
   \<and> candidates 2500 None = [2500]
   \<and> map ex_Length (expanded_data [\<lparr>in_Profile_Code = ''A'', in_Length = 1200, in_Quantity = 3\<rparr>]) = [1200, 1200, 1200]
   \<and> mset (concat (map pt_Cutting_Pattern (filter (\<lambda>r. pt_Profile_Code r = ''A'') [\<lparr>pt_Profile_Code = ''A'', pt_Bar_Number = 1, pt_Stock_Length = 2500, pt_Used_Length = 2420,
        pt_Remaining_Length = 80, pt_Efficiency = Some (24 / 25), pt_Cutting_Pattern = [1200, 1200],
        pt_Pieces = 2\<rparr>,
       \<lparr>pt_Profile_Code = ''A'', pt_Bar_Number = 2, pt_Stock_Length = 2500, pt_Used_Length = 1210,
        pt_Remaining_Length = 1290, pt_Efficiency = Some (12 / 25), pt_Cutting_Pattern = [1200],
        pt_Pieces = 1\<rparr>])))
       = mset (map ex_Length (filter (\<lambda>it. ex_Profile_Code it = ''A'')
           (expanded_data [\<lparr>in_Profile_Code = ''A'', in_Length = 1200, in_Quantity = 3\<rparr>])))"
proof -
  have h: "optimize_cutting
     [\<lparr>in_Profile_Code = ''A'', in_Length = 1200, in_Quantity = 3\<rparr>]
     2500 10 MaxEfficiency None False
   = Inr ([\<lparr>rs_Profile_Code = ''A'', rs_Item_ID = ''A_1'', rs_Length = 1200, rs_Bar_Number = 1\<rparr>,
       \<lparr>rs_Profile_Code = ''A'', rs_Item_ID = ''A_2'', rs_Length = 1200, rs_Bar_Number = 1\<rparr>,
       \<lparr>rs_Profile_Code = ''A'', rs_Item_ID = ''A_3'', rs_Length = 1200, rs_Bar_Number = 2\<rparr>],
      [\<lparr>pt_Profile_Code = ''A'', pt_Bar_Number = 1, pt_Stock_Length = 2500, pt_Used_Length = 2420,
        pt_Remaining_Length = 80, pt_Efficiency = Some (24 / 25), pt_Cutting_Pattern = [1200, 1200],
        pt_Pieces = 2\<rparr>,
       \<lparr>pt_Profile_Code = ''A'', pt_Bar_Number = 2, pt_Stock_Length = 2500, pt_Used_Length = 1210,
        pt_Remaining_Length = 1290, pt_Efficiency = Some (12 / 25), pt_Cutting_Pattern = [1200],
        pt_Pieces = 1\<rparr>],
      [\<lparr>sm_Profile_Code = ''A'', sm_Total_Pieces = 3, sm_Total_Bars_Used = 2,
        sm_Total_Length_Needed = 3600, sm_Total_Stock_Length = 5000, sm_Waste = 1390,
        sm_Overall_Efficiency = Some (18 / 25), sm_Average_Bar_Efficiency = Some (18 / 25)\<rparr>])"
    by code_simp
  have e: "map ex_Length (expanded_data [\<lparr>in_Profile_Code = ''A'', in_Length = 1200, in_Quantity = 3\<rparr>]) = [1200, 1200, 1200]"
    by code_simp
  from arg_cong [OF e, of length]
  have n: "length (expanded_data [\<lparr>in_Profile_Code = ''A'', in_Length = 1200, in_Quantity = 3\<rparr>]) = 3"
    by simp
  have c: "candidates 2500 None \<noteq> []"
    by (simp add: candidates_def)
  have s: "\<forall>s\<in>set (candidates 2500 None).
             0 < s \<and> s * of_nat (length (expanded_data [\<lparr>in_Profile_Code = ''A'', in_Length = 1200, in_Quantity = 3\<rparr>])) < 2 ^ 63"
    by (simp add: candidates_def n)
  have l: "\<forall>row\<in>set [\<lparr>in_Profile_Code = ''A'', in_Length = 1200, in_Quantity = 3\<rparr>]. 1 \<le> in_Length row"
    by simp
  have g: "(0::rat) \<le> 10"
    by simp
  have t: "sum_list (map (\<lambda>it. ex_Length it + 10) (expanded_data [\<lparr>in_Profile_Code = ''A'', in_Length = 1200, in_Quantity = 3\<rparr>])) < 2 ^ 63"
    by code_simp
  from pieces_equal_demand [OF h c s l g t, of "''A''"] h e show ?thesis
    by (simp add: candidates_def)
qed

text \<open>
  Claim C5 as stated fails: a piece of 6000 fits a stock length of 6000, and the bar that
  holds it is left with a remaining length of minus the cutting gap.
\<close>

theorem remaining_length_negative:
  "optimize_cutting
     [\<lparr>in_Profile_Code = ''A'', in_Length = 6000, in_Quantity = 1\<rparr>]
     6000 10 MaxEfficiency None False
   = Inr ([\<lparr>rs_Profile_Code = ''A'', rs_Item_ID = ''A_1'', rs_Length = 6000, rs_Bar_Number = 1\<rparr>],
      [\<lparr>pt_Profile_Code = ''A'', pt_Bar_Number = 1, pt_Stock_Length = 6000, pt_Used_Length = 6010,
        pt_Remaining_Length = - 10, pt_Efficiency = Some 1, pt_Cutting_Pattern = [6000],
        pt_Pieces = 1\<rparr>],
      [\<lparr>sm_Profile_Code = ''A'', sm_Total_Pieces = 1, sm_Total_Bars_Used = 1,
        sm_Total_Length_Needed = 6000, sm_Total_Stock_Length = 6000, sm_Waste = 0,
        sm_Overall_Efficiency = Some 1, sm_Average_Bar_Efficiency = Some 1\<rparr>])"
  by code_simp

text \<open>
  Claim C5, as amended. Placing a piece takes the piece and the cutting gap from the
  remaining capacity, while the test only asks that the piece fits: for a bar of the
  Patterns table whose stock length is at least every demanded length of its profile, the
  remaining length is at least minus the cutting gap.
\<close>

theorem remaining_length_bound:
  assumes "optimize_cutting input_data stock_length cutting_gap optimization_method stock_length_options
             optimize_stock_length = Inr (result_df, patterns_df, summary_df)"
    and "r \<in> set patterns_df"
    and "\<forall>it\<in>set (expanded_data input_data).
           ex_Profile_Code it = pt_Profile_Code r \<longrightarrow> ex_Length it \<le> pt_Stock_Length r"
  shows "- cutting_gap \<le> pt_Remaining_Length r"
proof -
  let ?p = "pt_Profile_Code r"
  let ?pd = "profile_data (expanded_data input_data) ?p"
  let ?w = "winner input_data stock_length cutting_gap optimization_method stock_length_options ?p"
  let ?rows = "winner_rows input_data stock_length cutting_gap optimization_method stock_length_options ?p"
  have "r \<in># mset (filter (\<lambda>r'. pt_Profile_Code r' = ?p) patterns_df)"
    using assms(2) by simp
  then obtain r0 where r0: "r0 \<in> set ?rows"
      and r: "r = r0\<lparr>pt_Efficiency := round4 (pt_Efficiency r0)\<rparr>"
    unfolding patterns_df_profile [OF assms(1)] by auto
  have "pt_Remaining_Length r0 \<in> set (map pt_Remaining_Length ?rows)"
    using r0 by simp
  then have rem: "pt_Remaining_Length r \<in> set (best_remaining_lengths ?w)"
    unfolding winner_rows_fields(4) by (simp add: r)
  have "pt_Stock_Length r0 \<in> set (map pt_Stock_Length ?rows)"
    using r0 by simp
  then have stock: "pt_Stock_Length r = best_stock_length ?w"
    unfolding winner_rows_fields(3) by (simp add: r)
  from best_solution_cases [of optimization_method stock_length cutting_gap
      "candidates stock_length stock_length_options" "profile_lengths ?pd"]
  consider "?w = initial_best stock_length"
    | s where "?w = candidate cutting_gap (profile_lengths ?pd) s"
    unfolding winner_def by blast
  then show ?thesis
  proof cases
    case 1
    then show ?thesis using rem by (simp add: initial_best_def)
  next
    case (2 s)
    have "\<forall>l\<in>set (profile_lengths ?pd). l \<le> s"
      using assms(3) stock 2
      by (auto simp: profile_lengths_facts(4) profile_data_def candidate_simps)
    from first_fit_remaining_bound [OF this, of cutting_gap] rem 2
    show ?thesis by (simp add: candidate_simps)
  qed
qed

theorem remaining_length_bound_witness:
  "optimize_cutting
     [\<lparr>in_Profile_Code = ''A'', in_Length = 1200, in_Quantity = 3\<rparr>]
     2500 10 MaxEfficiency None False
   = Inr ([\<lparr>rs_Profile_Code = ''A'', rs_Item_ID = ''A_1'', rs_Length = 1200, rs_Bar_Number = 1\<rparr>,
       \<lparr>rs_Profile_Code = ''A'', rs_Item_ID = ''A_2'', rs_Length = 1200, rs_Bar_Number = 1\<rparr>,
       \<lparr>rs_Profile_Code = ''A'', rs_Item_ID = ''A_3'', rs_Length = 1200, rs_Bar_Number = 2\<rparr>],
      [\<lparr>pt_Profile_Code = ''A'', pt_Bar_Number = 1, pt_Stock_Length = 2500, pt_Used_Length = 2420,
        pt_Remaining_Length = 80, pt_Efficiency = Some (24 / 25), pt_Cutting_Pattern = [1200, 1200],
        pt_Pieces = 2\<rparr>,
       \<lparr>pt_Profile_Code = ''A'', pt_Bar_Number = 2, pt_Stock_Length = 2500, pt_Used_Length = 1210,
        pt_Remaining_Length = 1290, pt_Efficiency = Some (12 / 25), pt_Cutting_Pattern = [1200],
        pt_Pieces = 1\<rparr>],
      [\<lparr>sm_Profile_Code = ''A'', sm_Total_Pieces = 3, sm_Total_Bars_Used = 2,
        sm_Total_Length_Needed = 3600, sm_Total_Stock_Length = 5000, sm_Waste = 1390,
        sm_Overall_Efficiency = Some (18 / 25), sm_Average_Bar_Efficiency = Some (18 / 25)\<rparr>])
   \<and> \<lparr>pt_Profile_Code = ''A'', pt_Bar_Number = 1, pt_Stock_Length = 2500, pt_Used_Length = 2420,
        pt_Remaining_Length = 80, pt_Efficiency = Some (24 / 25), pt_Cutting_Pattern = [1200, 1200],
        pt_Pieces = 2\<rparr> \<in> set [\<lparr>pt_Profile_Code = ''A'', pt_Bar_Number = 1, pt_Stock_Length = 2500, pt_Used_Length = 2420,
        pt_Remaining_Length = 80, pt_Efficiency = Some (24 / 25), pt_Cutting_Pattern = [1200, 1200],
        pt_Pieces = 2\<rparr>,
       \<lparr>pt_Profile_Code = ''A'', pt_Bar_Number = 2, pt_Stock_Length = 2500, pt_Used_Length = 1210,
        pt_Remaining_Length = 1290, pt_Efficiency = Some (12 / 25), pt_Cutting_Pattern = [1200],
        pt_Pieces = 1\<rparr>]
   \<and> map ex_Length (expanded_data [\<lparr>in_Profile_Code = ''A'', in_Length = 1200, in_Quantity = 3\<rparr>]) = [1200, 1200, 1200]
   \<and> pt_Stock_Length (\<lparr>pt_Profile_Code = ''A'', pt_Bar_Number = 1, pt_Stock_Length = 2500, pt_Used_Length = 2420,
        pt_Remaining_Length = 80, pt_Efficiency = Some (24 / 25), pt_Cutting_Pattern = [1200, 1200],
        pt_Pieces = 2\<rparr>) = 2500
   \<and> - 10 \<le> pt_Remaining_Length (\<lparr>pt_Profile_Code = ''A'', pt_Bar_Number = 1, pt_Stock_Length = 2500, pt_Used_Length = 2420,
        pt_Remaining_Length = 80, pt_Efficiency = Some (24 / 25), pt_Cutting_Pattern = [1200, 1200],
        pt_Pieces = 2\<rparr>)"
proof -
  have h: "optimize_cutting
     [\<lparr>in_Profile_Code = ''A'', in_Length = 1200, in_Quantity = 3\<rparr>]
     2500 10 MaxEfficiency None False
   = Inr ([\<lparr>rs_Profile_Code = ''A'', rs_Item_ID = ''A_1'', rs_Length = 1200, rs_Bar_Number = 1\<rparr>,
       \<lparr>rs_Profile_Code = ''A'', rs_Item_ID = ''A_2'', rs_Length = 1200, rs_Bar_Number = 1\<rparr>,
       \<lparr>rs_Profile_Code = ''A'', rs_Item_ID = ''A_3'', rs_Length = 1200, rs_Bar_Number = 2\<rparr>],
      [\<lparr>pt_Profile_Code = ''A'', pt_Bar_Number = 1, pt_Stock_Length = 2500, pt_Used_Length = 2420,
        pt_Remaining_Length = 80, pt_Efficiency = Some (24 / 25), pt_Cutting_Pattern = [1200, 1200],
        pt_Pieces = 2\<rparr>,
       \<lparr>pt_Profile_Code = ''A'', pt_Bar_Number = 2, pt_Stock_Length = 2500, pt_Used_Length = 1210,
        pt_Remaining_Length = 1290, pt_Efficiency = Some (12 / 25), pt_Cutting_Pattern = [1200],
        pt_Pieces = 1\<rparr>],
      [\<lparr>sm_Profile_Code = ''A'', sm_Total_Pieces = 3, sm_Total_Bars_Used = 2,
        sm_Total_Length_Needed = 3600, sm_Total_Stock_Length = 5000, sm_Waste = 1390,
        sm_Overall_Efficiency = Some (18 / 25), sm_Average_Bar_Efficiency = Some (18 / 25)\<rparr>])"
    by code_simp
  have m: "\<lparr>pt_Profile_Code = ''A'', pt_Bar_Number = 1, pt_Stock_Length = 2500, pt_Used_Length = 2420,
        pt_Remaining_Length = 80, pt_Efficiency = Some (24 / 25), pt_Cutting_Pattern = [1200, 1200],
        pt_Pieces = 2\<rparr> \<in> set [\<lparr>pt_Profile_Code = ''A'', pt_Bar_Number = 1, pt_Stock_Length = 2500, pt_Used_Length = 2420,
        pt_Remaining_Length = 80, pt_Efficiency = Some (24 / 25), pt_Cutting_Pattern = [1200, 1200],
        pt_Pieces = 2\<rparr>,
       \<lparr>pt_Profile_Code = ''A'', pt_Bar_Number = 2, pt_Stock_Length = 2500, pt_Used_Length = 1210,
        pt_Remaining_Length = 1290, pt_Efficiency = Some (12 / 25), pt_Cutting_Pattern = [1200],
        pt_Pieces = 1\<rparr>]"
    by simp
  have f: "\<forall>it\<in>set (expanded_data [\<lparr>in_Profile_Code = ''A'', in_Length = 1200, in_Quantity = 3\<rparr>]).
          ex_Profile_Code it = pt_Profile_Code (\<lparr>pt_Profile_Code = ''A'', pt_Bar_Number = 1, pt_Stock_Length = 2500, pt_Used_Length = 2420,
        pt_Remaining_Length = 80, pt_Efficiency = Some (24 / 25), pt_Cutting_Pattern = [1200, 1200],
        pt_Pieces = 2\<rparr>)
          \<longrightarrow> ex_Length it \<le> pt_Stock_Length (\<lparr>pt_Profile_Code = ''A'', pt_Bar_Number = 1, pt_Stock_Length = 2500, pt_Used_Length = 2420,
        pt_Remaining_Length = 80, pt_Efficiency = Some (24 / 25), pt_Cutting_Pattern = [1200, 1200],
        pt_Pieces = 2\<rparr>)"
    by code_simp
  have e: "map ex_Length (expanded_data [\<lparr>in_Profile_Code = ''A'', in_Length = 1200, in_Quantity = 3\<rparr>]) = [1200, 1200, 1200]"
    by code_simp
  from remaining_length_bound [OF h m f] h m e show ?thesis by simp
qed

text \<open>
  Claim C6 as stated fails: with the single candidate 6000 and a demanded length of 7000 the
  optimizer returns its three tables, and the bar has a remaining length of -1010.
\<close>

theorem infeasible_length_accepted:
  "optimize_cutting
     [\<lparr>in_Profile_Code = ''A'', in_Length = 7000, in_Quantity = 1\<rparr>]
     6000 10 MaxEfficiency (Some [6000]) False
   = Inr ([\<lparr>rs_Profile_Code = ''A'', rs_Item_ID = ''A_1'', rs_Length = 7000, rs_Bar_Number = 1\<rparr>],
      [\<lparr>pt_Profile_Code = ''A'', pt_Bar_Number = 1, pt_Stock_Length = 6000, pt_Used_Length = 7010,
        pt_Remaining_Length = - 1010, pt_Efficiency = Some (11667 / 10000), pt_Cutting_Pattern = [7000],
        pt_Pieces = 1\<rparr>],
      [\<lparr>sm_Profile_Code = ''A'', sm_Total_Pieces = 1, sm_Total_Bars_Used = 1,
        sm_Total_Length_Needed = 7000, sm_Total_Stock_Length = 6000, sm_Waste = - 1000,
        sm_Overall_Efficiency = Some (11667 / 10000), sm_Average_Bar_Efficiency = Some (11667 / 10000)\<rparr>])"
  by code_simp

text \<open>
  Claim C6, as amended. The code has no infeasibility check and raises nothing. The
  hypotheses keep the table where the source's 64-bit numbers are those of the model: every
  demanded length at least 1, a cutting gap that is not negative, the lengths with their
  gaps summing to less than \<open>2^63\<close> over the expanded table, at least one candidate, and every
  candidate positive and, multiplied by the number of expanded items, below \<open>2^63\<close> (lemma
  \<open>sums_within_int64\<close>). When a demanded length then exceeds every candidate stock length, the
  optimizer returns its three tables, and the Patterns table has a bar of that profile that
  holds the length and whose remaining length is negative.
\<close>

theorem infeasible_length_returns:
  assumes item: "it \<in> set (expanded_data input_data)"
    and options: "candidates stock_length stock_length_options \<noteq> []"
    and stock: "\<forall>s\<in>set (candidates stock_length stock_length_options).
                  0 < s \<and> s < ex_Length it
                  \<and> s * of_nat (length (expanded_data input_data)) < 2 ^ 63"
    and lengths: "\<forall>row\<in>set input_data. 1 \<le> in_Length row"
    and gap: "0 \<le> cutting_gap"
    and total: "sum_list (map (\<lambda>it. ex_Length it + cutting_gap) (expanded_data input_data))
                  < 2 ^ 63"
  shows "\<exists>result_df patterns_df summary_df.
           optimize_cutting input_data stock_length cutting_gap optimization_method
               stock_length_options optimize_stock_length
             = Inr (result_df, patterns_df, summary_df)
           \<and> (\<exists>r\<in>set patterns_df. pt_Profile_Code r = ex_Profile_Code it
                  \<and> ex_Length it \<in> set (pt_Cutting_Pattern r)
                  \<and> pt_Remaining_Length r < 0)"
proof -
  let ?ex = "expanded_data input_data"
  let ?p = "ex_Profile_Code it"
  let ?pd = "profile_data ?ex ?p"
  let ?L = "profile_lengths ?pd"
  let ?w = "winner input_data stock_length cutting_gap optimization_method
              stock_length_options ?p"
  let ?rows = "winner_rows input_data stock_length cutting_gap optimization_method
                 stock_length_options ?p"
  let ?rd = "\<lambda>r. r\<lparr>pt_Efficiency := round4 (pt_Efficiency r)\<rparr>"
  have lpos: "\<forall>row\<in>set input_data. 0 < in_Length row"
  proof
    fix row assume "row \<in> set input_data"
    then have "1 \<le> in_Length row" using lengths by simp
    then show "0 < in_Length row" by simp
  qed
  from item have "?ex \<noteq> []" by auto
  from optimize_cutting_returns [OF this]
  obtain result_df patterns_df summary_df where
    run: "optimize_cutting input_data stock_length cutting_gap optimization_method
            stock_length_options optimize_stock_length
          = Inr (result_df, patterns_df, summary_df)"
    by blast
  have pd: "it \<in> set ?pd" using item by (simp add: profile_data_def)
  then have ne: "?pd \<noteq> []" by auto
  have pos: "\<forall>s\<in>set (candidates stock_length stock_length_options). 0 < s"
    using stock by simp
  from winner_candidate [OF options pos lpos ne, of cutting_gap optimization_method]
  obtain s where s: "s \<in> set (candidates stock_length stock_length_options)"
    and w: "?w = candidate cutting_gap ?L s"
    by blast
  have l: "ex_Length it \<in> set ?L"
    using pd by (simp add: profile_lengths_facts(4))
  have lp: "\<forall>len\<in>set ?L. 0 < len"
    using expanded_length_pos [OF lpos]
    by (auto simp: profile_lengths_facts(4) profile_data_def)
  have "s < ex_Length it" using stock s by simp
  from first_fit_negative [OF l this lp gap]
  obtain i where i: "i < length (snd (first_fit s cutting_gap ?L))"
    and piece: "ex_Length it \<in> set (fst (first_fit s cutting_gap ?L) ! i)"
    and neg: "snd (first_fit s cutting_gap ?L) ! i < 0"
    by blast
  have pats: "map pt_Cutting_Pattern ?rows = fst (first_fit s cutting_gap ?L)"
    and rems: "map pt_Remaining_Length ?rows = snd (first_fit s cutting_gap ?L)"
    by (simp_all only: winner_rows_fields w candidate_simps)
  from rems have len: "length ?rows = length (snd (first_fit s cutting_gap ?L))"
    by (metis length_map)
  with i have ir: "i < length ?rows" by simp
  have "pt_Cutting_Pattern (?rows ! i) = map pt_Cutting_Pattern ?rows ! i"
    using ir by simp
  then have r1: "ex_Length it \<in> set (pt_Cutting_Pattern (?rows ! i))"
    using piece by (simp only: pats)
  have "pt_Remaining_Length (?rows ! i) = map pt_Remaining_Length ?rows ! i"
    using ir by simp
  then have r2: "pt_Remaining_Length (?rows ! i) < 0"
    using neg by (simp only: rems)
  have mem: "?rows ! i \<in> set ?rows" using ir by simp
  then have r3: "pt_Profile_Code (?rows ! i) = ?p" by (rule winner_rows_code)
  have "?rd (?rows ! i) \<in># image_mset ?rd (mset ?rows)"
    using mem by simp
  then have "?rd (?rows ! i) \<in># mset (filter (\<lambda>r. pt_Profile_Code r = ?p) patterns_df)"
    by (simp only: patterns_df_profile [OF run])
  then have "?rd (?rows ! i) \<in> set patterns_df" by simp
  moreover have "pt_Profile_Code (?rd (?rows ! i)) = ?p
      \<and> ex_Length it \<in> set (pt_Cutting_Pattern (?rd (?rows ! i)))
      \<and> pt_Remaining_Length (?rd (?rows ! i)) < 0"
    using r1 r2 r3 by simp
  ultimately show ?thesis using run by blast
qed

theorem infeasible_length_returns_witness:
  "expanded_data [\<lparr>in_Profile_Code = ''A'', in_Length = 7000, in_Quantity = 1\<rparr>]
     = [\<lparr>ex_Profile_Code = ''A'', ex_Length = 7000, ex_Item_ID = ''A_1''\<rparr>]
   \<and> candidates 6000 (Some [6000]) = [6000]
   \<and> (\<exists>result_df patterns_df summary_df.
          optimize_cutting
            [\<lparr>in_Profile_Code = ''A'', in_Length = 7000, in_Quantity = 1\<rparr>]
            6000 10 MaxEfficiency (Some [6000]) False
            = Inr (result_df, patterns_df, summary_df)
          \<and> (\<exists>r\<in>set patterns_df.
                 pt_Profile_Code r = ex_Profile_Code
                   (\<lparr>ex_Profile_Code = ''A'', ex_Length = 7000, ex_Item_ID = ''A_1''\<rparr>)
                 \<and> ex_Length
                   (\<lparr>ex_Profile_Code = ''A'', ex_Length = 7000, ex_Item_ID = ''A_1''\<rparr>)
                     \<in> set (pt_Cutting_Pattern r)
                 \<and> pt_Remaining_Length r < 0))"
proof -
  have e: "expanded_data [\<lparr>in_Profile_Code = ''A'', in_Length = 7000, in_Quantity = 1\<rparr>]
     = [\<lparr>ex_Profile_Code = ''A'', ex_Length = 7000, ex_Item_ID = ''A_1''\<rparr>]"
    by code_simp
  have h1: "\<lparr>ex_Profile_Code = ''A'', ex_Length = 7000, ex_Item_ID = ''A_1''\<rparr>
      \<in> set (expanded_data [\<lparr>in_Profile_Code = ''A'', in_Length = 7000, in_Quantity = 1\<rparr>])"
    by (simp add: e)
  have c: "candidates 6000 (Some [6000]) = [6000]"
    by (simp add: candidates_def)
  have h2: "candidates 6000 (Some [6000]) \<noteq> []"
    by (simp add: c)
  have h3: "\<forall>s\<in>set (candidates 6000 (Some [6000])).
              0 < s \<and> s < ex_Length (\<lparr>ex_Profile_Code = ''A'', ex_Length = 7000, ex_Item_ID = ''A_1''\<rparr>)
              \<and> s * of_nat (length (expanded_data [\<lparr>in_Profile_Code = ''A'', in_Length = 7000, in_Quantity = 1\<rparr>])) < 2 ^ 63"
    by (simp add: c e)
  have h4: "\<forall>row\<in>set [\<lparr>in_Profile_Code = ''A'', in_Length = 7000, in_Quantity = 1\<rparr>]. 1 \<le> in_Length row"
    by simp
  have h5: "(0::rat) \<le> 10"
    by simp
  have h6: "sum_list (map (\<lambda>it. ex_Length it + 10) (expanded_data [\<lparr>in_Profile_Code = ''A'', in_Length = 7000, in_Quantity = 1\<rparr>])) < 2 ^ 63"
    by (simp add: e)
  show ?thesis
    by (rule conjI [OF e conjI [OF c infeasible_length_returns [OF h1 h2 h3 h4 h5 h6]]])
qed

text \<open>
  Claim C7 as stated fails: with an empty list of stock lengths the optimizer returns, with
  empty Results and Patterns tables and a Summary row of zero bars.
\<close>

theorem no_candidate_accepted:
  "optimize_cutting
     [\<lparr>in_Profile_Code = ''A'', in_Length = 1200, in_Quantity = 1\<rparr>]
     6000 10 MaxEfficiency (Some []) False
   = Inr ([], [],
      [\<lparr>sm_Profile_Code = ''A'', sm_Total_Pieces = 1, sm_Total_Bars_Used = 0,
        sm_Total_Length_Needed = 1200, sm_Total_Stock_Length = 0, sm_Waste = - 1210,
        sm_Overall_Efficiency = None, sm_Average_Bar_Efficiency = None\<rparr>])"
  by code_simp

text \<open>
  Claim C7, as amended. The code has no check of the candidate list and raises nothing for
  an empty one: whenever the table expands to at least one item, the optimizer returns empty
  Results and Patterns tables and one Summary row per profile code, each with zero bars used
  and zero stock length.
\<close>

theorem no_candidate_returns:
  assumes "expanded_data input_data \<noteq> []"
  shows "\<exists>summary_df.
           optimize_cutting input_data stock_length cutting_gap optimization_method (Some [])
               optimize_stock_length
             = Inr ([], [], summary_df)
           \<and> length summary_df = length (unique (map ex_Profile_Code (expanded_data input_data)))
           \<and> (\<forall>s\<in>set summary_df. sm_Total_Bars_Used s = 0 \<and> sm_Total_Stock_Length s = 0)"
proof -
  let ?ex = "expanded_data input_data"
  let ?codes = "unique (map ex_Profile_Code ?ex)"
  let ?sums = "map (\<lambda>r. r\<lparr>sm_Overall_Efficiency := round4 (sm_Overall_Efficiency r),
                           sm_Average_Bar_Efficiency := round4 (sm_Average_Bar_Efficiency r)\<rparr>)
                 (sort_key sm_Profile_Code
                    (map (\<lambda>p. summary p cutting_gap (profile_lengths (profile_data ?ex p)) [] [])
                       ?codes))"
  have "optimize_cutting input_data stock_length cutting_gap optimization_method (Some [])
          optimize_stock_length = Inr ([], [], ?sums)"
    using assms
    by (simp add: optimize_cutting_def Let_def candidates_def foldl_process_profile_no_options)
  moreover have "length ?sums = length ?codes" by simp
  moreover have "\<forall>s\<in>set ?sums. sm_Total_Bars_Used s = 0 \<and> sm_Total_Stock_Length s = 0"
    by (auto simp: summary_def Let_def)
  ultimately show ?thesis by blast
qed

theorem no_candidate_returns_witness:
  "expanded_data [\<lparr>in_Profile_Code = ''A'', in_Length = 1200, in_Quantity = 1\<rparr>]
     = [\<lparr>ex_Profile_Code = ''A'', ex_Length = 1200, ex_Item_ID = ''A_1''\<rparr>]
   \<and> (\<exists>summary_df.
          optimize_cutting
            [\<lparr>in_Profile_Code = ''A'', in_Length = 1200, in_Quantity = 1\<rparr>]
            6000 10 MaxEfficiency (Some []) False
            = Inr ([], [], summary_df)
          \<and> length summary_df = length (unique (map ex_Profile_Code (expanded_data
                [\<lparr>in_Profile_Code = ''A'', in_Length = 1200, in_Quantity = 1\<rparr>])))
          \<and> (\<forall>s\<in>set summary_df. sm_Total_Bars_Used s = 0 \<and> sm_Total_Stock_Length s = 0))"
proof -
  have e: "expanded_data [\<lparr>in_Profile_Code = ''A'', in_Length = 1200, in_Quantity = 1\<rparr>]
     = [\<lparr>ex_Profile_Code = ''A'', ex_Length = 1200, ex_Item_ID = ''A_1''\<rparr>]"
    by code_simp
  then have h: "expanded_data [\<lparr>in_Profile_Code = ''A'', in_Length = 1200, in_Quantity = 1\<rparr>] \<noteq> []"
    by simp
  show ?thesis
    by (rule conjI [OF e no_candidate_returns [OF h]])
qed

text \<open>
  Claim C8. Under the bar-count objective and with at least one candidate, the best solution
  is the scored candidate of a stock length \<open>s\<close> of the list such that every candidate scanned
  before it has more bars, or as many bars and a smaller efficiency, and every candidate
  scanned after it has more bars, or as many bars and an efficiency that is not greater: the
  smallest bar count, then the greater efficiency, then the first scanned.
\<close>

theorem min_bar_count_selection:
  assumes "stock_length_options \<noteq> []"
  shows "\<exists>pre s post. stock_length_options = pre @ s # post
          \<and> best_solution MinBarCount stock_length cutting_gap stock_length_options lengths
              = candidate cutting_gap lengths s
          \<and> (\<forall>t\<in>set pre.
                best_bar_count (candidate cutting_gap lengths s)
                  < best_bar_count (candidate cutting_gap lengths t)
                \<or> (best_bar_count (candidate cutting_gap lengths s)
                      = best_bar_count (candidate cutting_gap lengths t)
                    \<and> best_efficiency (candidate cutting_gap lengths t)
                        < best_efficiency (candidate cutting_gap lengths s)))
          \<and> (\<forall>t\<in>set post.
                best_bar_count (candidate cutting_gap lengths s)
                  < best_bar_count (candidate cutting_gap lengths t)
                \<or> (best_bar_count (candidate cutting_gap lengths s)
                      = best_bar_count (candidate cutting_gap lengths t)
                    \<and> best_efficiency (candidate cutting_gap lengths t)
                        \<le> best_efficiency (candidate cutting_gap lengths s)))"
  using assms by (rule min_bar_count_split)

theorem min_bar_count_selection_witness:
  "[3000, 6000, 6500] \<noteq> ([] :: rat list)
   \<and> (\<exists>pre s post. [3000, 6000, 6500] = pre @ s # post
        \<and> best_solution MinBarCount 6000 10 [3000, 6000, 6500] [2900, 2900]
            = candidate 10 [2900, 2900] s
        \<and> (\<forall>t\<in>set pre.
              best_bar_count (candidate 10 [2900, 2900] s)
                < best_bar_count (candidate 10 [2900, 2900] t)
              \<or> (best_bar_count (candidate 10 [2900, 2900] s)
                    = best_bar_count (candidate 10 [2900, 2900] t)
                  \<and> best_efficiency (candidate 10 [2900, 2900] t)
                      < best_efficiency (candidate 10 [2900, 2900] s)))
        \<and> (\<forall>t\<in>set post.
              best_bar_count (candidate 10 [2900, 2900] s)
                < best_bar_count (candidate 10 [2900, 2900] t)
              \<or> (best_bar_count (candidate 10 [2900, 2900] s)
                    = best_bar_count (candidate 10 [2900, 2900] t)
                  \<and> best_efficiency (candidate 10 [2900, 2900] t)
                      \<le> best_efficiency (candidate 10 [2900, 2900] s))))"
proof -
  have h: "[3000, 6000, 6500] \<noteq> ([] :: rat list)"
    by simp
  show ?thesis
    by (rule conjI [OF h min_bar_count_selection [OF h]])
qed



text \<open>
  Claim C10: the bar numbers of a profile in the Patterns and Results tables are exactly
  1..barCount. The code at a table in which profile \<open>A\<close> stands on two lines, one piece of
  1200 and one of 800, with stock length 1500: the Patterns table has the bars 1 and 2, the
  Results table has a row for bar 1 only, since the piece of bar 2 finds no unassigned item
  (both items carry the id \<open>A_1\<close>).
\<close>

theorem bar_number_missing:
  "optimize_cutting
     [\<lparr>in_Profile_Code = ''A'', in_Length = 1200, in_Quantity = 1\<rparr>,
      \<lparr>in_Profile_Code = ''A'', in_Length = 800, in_Quantity = 1\<rparr>]
     1500 10 MaxEfficiency None False
   = Inr ([\<lparr>rs_Profile_Code = ''A'', rs_Item_ID = ''A_1'', rs_Length = 1200, rs_Bar_Number = 1\<rparr>],
      [\<lparr>pt_Profile_Code = ''A'', pt_Bar_Number = 1, pt_Stock_Length = 1500, pt_Used_Length = 1210,
        pt_Remaining_Length = 290, pt_Efficiency = Some (4 / 5), pt_Cutting_Pattern = [1200],
        pt_Pieces = 1\<rparr>,
       \<lparr>pt_Profile_Code = ''A'', pt_Bar_Number = 2, pt_Stock_Length = 1500, pt_Used_Length = 810,
        pt_Remaining_Length = 690, pt_Efficiency = Some (5333 / 10000), pt_Cutting_Pattern = [800],
        pt_Pieces = 1\<rparr>],
      [\<lparr>sm_Profile_Code = ''A'', sm_Total_Pieces = 2, sm_Total_Bars_Used = 2,
        sm_Total_Length_Needed = 2000, sm_Total_Stock_Length = 3000, sm_Waste = 1000,
        sm_Overall_Efficiency = Some (6667 / 10000), sm_Average_Bar_Efficiency = Some (6667 / 10000)\<rparr>])"
  by code_simp

end
